theory Spec2Isabelle
  imports Complex_Main "HOL-Library.List_Lexorder" "HOL-Library.Product_Lexorder"
begin

section \<open>Python strings\<close>

text \<open>
  A Python \<open>str\<close> is a sequence of Unicode code points; \<open>len\<close> counts code points.
  A string is therefore modelled as a list of code points (natural numbers), and a
  one-character string as a one-element list. ASCII literals of the source are written
  with \<open>ascii\<close>.
\<close>

type_synonym pystr = "nat list"

definition ascii :: "string \<Rightarrow> pystr" where
  "ascii s = map of_char s"

definition NL :: nat where "NL = 10"

section \<open>Style marker codec\<close>

subsection \<open>Encoding helpers (\<open>_testcase_assert_add.py\<close>)\<close>

definition BOLD_MARK :: nat where "BOLD_MARK = 8288"       \<comment> \<open>U+2060, word joiner\<close>
definition UNDER_MARK :: nat where "UNDER_MARK = 819"      \<comment> \<open>U+0333, combining double low line\<close>
definition STRIKE_MARK :: nat where "STRIKE_MARK = 820"    \<comment> \<open>U+0334, combining tilde overlay\<close>

text \<open>The body of the loop of \<open>__bold\<close>: the marker, then the substituted character.\<close>

definition bold_char :: "nat \<Rightarrow> nat" where
  "bold_char x =
     (if 48 \<le> x \<and> x \<le> 57 then x + 120812 - 48
      else if 65 \<le> x \<and> x \<le> 90 then x + 120276 - 65
      else if 97 \<le> x \<and> x \<le> 122 then x + 120302 - 97
      else x)"

fun bold_with :: "nat \<Rightarrow> pystr \<Rightarrow> pystr" where
  "bold_with charcode [] = []"
| "bold_with charcode (ch # string) = charcode # bold_char ch # bold_with charcode string"

definition bold :: "pystr \<Rightarrow> pystr" where
  "bold string = bold_with BOLD_MARK string"

definition bold_substr :: "pystr \<Rightarrow> nat \<Rightarrow> nat \<Rightarrow> pystr" where
  "bold_substr string start end =
     take start string @ bold (drop start (take end string)) @ drop end string"

fun mark_each :: "nat \<Rightarrow> pystr \<Rightarrow> pystr" where
  "mark_each charcode [] = []"
| "mark_each charcode (ch # text) = charcode # ch # mark_each charcode text"

definition strikethrough :: "pystr \<Rightarrow> pystr" where
  "strikethrough text = mark_each STRIKE_MARK text"

definition underline :: "pystr \<Rightarrow> pystr" where
  "underline text = mark_each UNDER_MARK text"

subsection \<open>Decoding to HTML (\<open>__main__.py\<close>)\<close>

text \<open>
  \<open>__styling\<close>: \<open>ch\<close> is the (already escaped) text of the current character, a string;
  \<open>last_ch\<close> is the previous raw character (the empty string before the first one).
\<close>

definition styling :: "pystr \<Rightarrow> pystr \<Rightarrow> nat \<Rightarrow> bool \<Rightarrow> pystr \<Rightarrow> pystr \<Rightarrow> pystr \<times> bool" where
  "styling ch last_ch marker current start end =
     (if ch = [marker] then ((if current then [] else start), True)
      else if current \<and> last_ch \<noteq> [marker] then (end @ ch, False)
      else (ch, current))"

definition DQ :: string where "DQ = [CHR 0x22]"

definition ins_open :: pystr where
  "ins_open = ascii (''<ins style='' @ DQ @ ''text-decoration:underline;background-color:#d4fcbc;'' @ DQ @ ''>'')"
definition del_open :: pystr where
  "del_open = ascii (''<del style='' @ DQ @ ''text-decoration:line-through;background-color:#fbb;color:#555;'' @ DQ @ ''>'')"
definition b_open :: pystr where
  "b_open = ascii (''<b style='' @ DQ @ ''font-style:italic;font-weight:bolder;color:green;'' @ DQ @ ''>'')"
definition b_close :: pystr where "b_close = ascii ''</b>''"
definition ins_close :: pystr where "ins_close = ascii ''</ins>''"
definition del_close :: pystr where "del_close = ascii ''</del>''"

text \<open>The dictionary \<open>ch_map\<close>.\<close>

definition ch_map :: "nat \<rightharpoonup> pystr" where
  "ch_map = [10 \<mapsto> ascii ''<br>'', 60 \<mapsto> ascii ''&lt;'', 62 \<mapsto> ascii ''&gt;'',
             38 \<mapsto> ascii ''&amp;'', 34 \<mapsto> ascii ''&quot;'', 39 \<mapsto> ascii ''&apos;'']"

text \<open>The first statements of the loop body: escape through \<open>ch_map\<close>, else de-bold.\<close>

definition escape_char :: "nat \<Rightarrow> pystr" where
  "escape_char x =
     (case ch_map x of
        Some s \<Rightarrow> s
      | None \<Rightarrow>
          (if 120812 \<le> x \<and> x < 120812 + 10 then [x - 120812 + 48]
           else if 120276 \<le> x \<and> x < 120276 + 26 then [x - 120276 + 65]
           else if 120302 \<le> x \<and> x < 120302 + 26 then [x - 120302 + 97]
           else [x]))"

record html_state =
  html_out :: pystr
  bolding :: bool
  underlining :: bool
  striking :: bool
  last_ch :: pystr

definition html_step :: "html_state \<Rightarrow> nat \<Rightarrow> html_state" where
  "html_step st raw_ch =
     (let ch = escape_char raw_ch;
          (ch, b) = styling ch (last_ch st) BOLD_MARK (bolding st) b_open b_close;
          (ch, u) = styling ch (last_ch st) UNDER_MARK (underlining st) ins_open ins_close;
          (ch, s) = styling ch (last_ch st) STRIKE_MARK (striking st) del_open del_close
      in \<lparr>html_out = html_out st @ ch, bolding = b, underlining = u, striking = s,
          last_ch = [raw_ch]\<rparr>)"

fun html_loop :: "html_state \<Rightarrow> pystr \<Rightarrow> html_state" where
  "html_loop st [] = st"
| "html_loop st (raw_ch # text) = html_loop (html_step st raw_ch) text"

definition convert_to_html :: "pystr \<Rightarrow> pystr" where
  "convert_to_html text =
     (let st = html_loop \<lparr>html_out = ascii ''<pre>'', bolding = False, underlining = False,
                          striking = False, last_ch = []\<rparr> text;
          out = html_out st;
          out = (if bolding st then out @ b_close else out);
          out = (if underlining st then out @ ins_close else out);
          out = (if striking st then out @ del_close else out)
      in out @ ascii ''</pre>'')"

subsection \<open>Well-formed styled text\<close>

text \<open>
  A text with style spans is a list of segments: plain runs and runs carrying one of the
  three styles. The encoder applies the helper of the style to each styled run; the
  expected markup wraps the escaped run in the tags of its style.
\<close>

datatype style = Bold | Underline | Strikethrough

datatype segment = Plain pystr | Styled style pystr

fun seg_text :: "segment \<Rightarrow> pystr" where
  "seg_text (Plain t) = t"
| "seg_text (Styled s t) = t"

fun is_styled :: "segment \<Rightarrow> bool" where
  "is_styled (Plain t) = False"
| "is_styled (Styled s t) = True"

definition plain_text :: "segment list \<Rightarrow> pystr" where
  "plain_text segs = concat (map seg_text segs)"

fun apply_style :: "style \<Rightarrow> pystr \<Rightarrow> pystr" where
  "apply_style Bold t = bold t"
| "apply_style Underline t = underline t"
| "apply_style Strikethrough t = strikethrough t"

fun encode_seg :: "segment \<Rightarrow> pystr" where
  "encode_seg (Plain t) = t"
| "encode_seg (Styled s t) = apply_style s t"

definition encode :: "segment list \<Rightarrow> pystr" where
  "encode segs = concat (map encode_seg segs)"

definition is_marker :: "nat \<Rightarrow> bool" where
  "is_marker x \<longleftrightarrow> x = BOLD_MARK \<or> x = UNDER_MARK \<or> x = STRIKE_MARK"

fun separated :: "segment list \<Rightarrow> bool" where
  "separated (a # b # segs) = (\<not> (is_styled a \<and> is_styled b) \<and> separated (b # segs))"
| "separated segs = True"

definition well_formed :: "segment list \<Rightarrow> bool" where
  "well_formed segs \<longleftrightarrow>
     list_all (\<lambda>g. seg_text g \<noteq> [] \<and> list_all (\<lambda>x. \<not> is_marker x) (seg_text g)) segs
     \<and> separated segs"

definition escape :: "pystr \<Rightarrow> pystr" where
  "escape t = concat (map escape_char t)"

fun open_tag :: "style \<Rightarrow> pystr" where
  "open_tag Bold = b_open"
| "open_tag Underline = ins_open"
| "open_tag Strikethrough = del_open"

fun close_tag :: "style \<Rightarrow> pystr" where
  "close_tag Bold = b_close"
| "close_tag Underline = ins_close"
| "close_tag Strikethrough = del_close"

fun markup_seg :: "segment \<Rightarrow> pystr" where
  "markup_seg (Plain t) = escape t"
| "markup_seg (Styled s t) = open_tag s @ escape t @ close_tag s"

definition markup :: "segment list \<Rightarrow> pystr" where
  "markup segs = ascii ''<pre>'' @ concat (map markup_seg segs) @ ascii ''</pre>''"

section \<open>Text diff engine\<close>

subsection \<open>The sequence matcher of the standard library\<close>

text \<open>
  \<open>__diff_line\<close> and \<open>__diff_lines\<close> build \<open>difflib.SequenceMatcher(a=a, b=b)\<close>: no junk
  predicate (\<open>isjunk=None\<close>, so the junk set is empty) and \<open>autojunk=True\<close>. The matcher
  is embedded from \<open>difflib.py\<close> of CPython 3.11 for exactly this configuration.

  \<open>chain_b b elt\<close> is \<open>b2j.get(elt, [])\<close> after \<open>__chain_b\<close>: the ascending indices of
  \<open>elt\<close> in \<open>b\<close>, purged when \<open>b\<close> has at least 200 elements and \<open>elt\<close> is popular.
\<close>

definition chain_b :: "'a list \<Rightarrow> 'a \<Rightarrow> nat list" where
  "chain_b b elt =
     (let idxs = filter (\<lambda>j. b ! j = elt) [0..<length b];
          n = length b
      in if n \<ge> 200 \<and> length idxs > n div 100 + 1 then [] else idxs)"

text \<open>\<open>j2len.get(j - 1, 0)\<close>: the key \<open>-1\<close> is never present.\<close>

definition j2lenget :: "(nat \<rightharpoonup> nat) \<Rightarrow> nat \<Rightarrow> nat" where
  "j2lenget j2len j =
     (case j of 0 \<Rightarrow> 0 | Suc j' \<Rightarrow> (case j2len j' of None \<Rightarrow> 0 | Some k \<Rightarrow> k))"

text \<open>
  The inner loop of \<open>find_longest_match\<close> over the indices \<open>j\<close> of \<open>a[i]\<close> in \<open>b\<close>, with
  its \<open>continue\<close> and \<open>break\<close>. The state is \<open>(newj2len, besti, bestj, bestsize)\<close>. Since
  \<open>k \<le> i + 1\<close> and \<open>k \<le> j + 1\<close> (lemma \<open>flm_row_inv\<close>), Python's \<open>i - k + 1\<close> is
  \<open>Suc i - k\<close> on the naturals.
\<close>

fun flm_row :: "nat \<Rightarrow> nat \<Rightarrow> nat \<Rightarrow> (nat \<rightharpoonup> nat) \<Rightarrow> nat list \<Rightarrow>
    (nat \<rightharpoonup> nat) \<times> nat \<times> nat \<times> nat \<Rightarrow> (nat \<rightharpoonup> nat) \<times> nat \<times> nat \<times> nat" where
  "flm_row blo bhi i j2len [] st = st"
| "flm_row blo bhi i j2len (j # js) (newj2len, besti, bestj, bestsize) =
     (if j < blo then flm_row blo bhi i j2len js (newj2len, besti, bestj, bestsize)
      else if j \<ge> bhi then (newj2len, besti, bestj, bestsize)
      else (let k = j2lenget j2len j + 1;
                newj2len = newj2len(j \<mapsto> k)
            in if k > bestsize then flm_row blo bhi i j2len js (newj2len, Suc i - k, Suc j - k, k)
               else flm_row blo bhi i j2len js (newj2len, besti, bestj, bestsize)))"

text \<open>The outer loop \<open>for i in range(alo, ahi)\<close>; the state carries \<open>j2len\<close>.\<close>

fun flm_rows :: "'a list \<Rightarrow> ('a \<Rightarrow> nat list) \<Rightarrow> nat \<Rightarrow> nat \<Rightarrow> nat list \<Rightarrow>
    (nat \<rightharpoonup> nat) \<times> nat \<times> nat \<times> nat \<Rightarrow> nat \<times> nat \<times> nat" where
  "flm_rows a b2j blo bhi [] (j2len, best) = best"
| "flm_rows a b2j blo bhi (i # rest) (j2len, best) =
     (case flm_row blo bhi i j2len (b2j (a ! i)) (Map.empty, best) of
        (newj2len, best') \<Rightarrow> flm_rows a b2j blo bhi rest (newj2len, best'))"

text \<open>
  The two extension loops over non-junk elements. The two loops over junk elements that
  follow them in the library never run, the junk set being empty.
\<close>

function extend_down :: "'a list \<Rightarrow> 'a list \<Rightarrow> nat \<Rightarrow> nat \<Rightarrow> nat \<times> nat \<times> nat \<Rightarrow> nat \<times> nat \<times> nat" where
  "extend_down a b alo blo (besti, bestj, bestsize) =
     (if besti > alo \<and> bestj > blo \<and> a ! (besti - 1) = b ! (bestj - 1)
      then extend_down a b alo blo (besti - 1, bestj - 1, bestsize + 1)
      else (besti, bestj, bestsize))"
  by pat_completeness auto
termination
  by (relation "measure (\<lambda>(a, b, alo, blo, besti, bestj, bestsize). besti)") auto

function extend_up :: "'a list \<Rightarrow> 'a list \<Rightarrow> nat \<Rightarrow> nat \<Rightarrow> nat \<times> nat \<times> nat \<Rightarrow> nat \<times> nat \<times> nat" where
  "extend_up a b ahi bhi (besti, bestj, bestsize) =
     (if besti + bestsize < ahi \<and> bestj + bestsize < bhi
         \<and> a ! (besti + bestsize) = b ! (bestj + bestsize)
      then extend_up a b ahi bhi (besti, bestj, bestsize + 1)
      else (besti, bestj, bestsize))"
  by pat_completeness auto
termination
  by (relation "measure (\<lambda>(a, b, ahi, bhi, besti, bestj, bestsize). ahi - (besti + bestsize))") auto

definition find_longest_match :: "'a list \<Rightarrow> 'a list \<Rightarrow> nat \<Rightarrow> nat \<Rightarrow> nat \<Rightarrow> nat \<Rightarrow> nat \<times> nat \<times> nat" where
  "find_longest_match a b alo ahi blo bhi =
     (let best = flm_rows a (chain_b b) blo bhi [alo..<ahi] (Map.empty, alo, blo, 0);
          best = extend_down a b alo blo best
      in extend_up a b ahi bhi best)"

text \<open>
  Bounds on the result of \<open>find_longest_match\<close>; the loop of \<open>get_matching_blocks\<close>
  terminates because of them.
\<close>

definition dict_ok :: "nat \<Rightarrow> nat \<Rightarrow> (nat \<rightharpoonup> nat) \<Rightarrow> bool" where
  "dict_ok blo n m \<longleftrightarrow> (\<forall>j k. m j = Some k \<longrightarrow> k \<le> n \<and> k \<le> Suc j - blo)"

definition best_ok :: "nat \<Rightarrow> nat \<Rightarrow> nat \<Rightarrow> nat \<Rightarrow> nat \<times> nat \<times> nat \<Rightarrow> bool" where
  "best_ok alo blo ihi bhi best \<longleftrightarrow>
     (case best of (bi, bj, bs) \<Rightarrow> alo \<le> bi \<and> blo \<le> bj \<and> bi + bs \<le> max alo ihi \<and> bj + bs \<le> max blo bhi)"

lemma j2lenget_le: "dict_ok blo n m \<Longrightarrow> blo \<le> j \<Longrightarrow> j2lenget m j \<le> n \<and> j2lenget m j \<le> j - blo"
  by (auto simp: dict_ok_def j2lenget_def split: nat.splits option.splits)

lemma flm_row_inv:
  "alo \<le> i \<Longrightarrow> dict_ok blo (i - alo) j2len \<Longrightarrow> dict_ok blo (Suc i - alo) new \<Longrightarrow>
   best_ok alo blo (Suc i) bhi best \<Longrightarrow>
   flm_row blo bhi i j2len js (new, best) = (new', best') \<Longrightarrow>
   dict_ok blo (Suc i - alo) new' \<and> best_ok alo blo (Suc i) bhi best'"
proof (induction js arbitrary: new best)
  case Nil
  then show ?case by simp
next
  case (Cons j js)
  obtain bi bj bs where best: "best = (bi, bj, bs)" by (cases best)
  show ?case
  proof (cases "j < blo")
    case True
    with Cons best show ?thesis by simp
  next
    case False
    show ?thesis
    proof (cases "j \<ge> bhi")
      case True
      with Cons.prems False best show ?thesis by simp
    next
      case ge: False
      let ?k = "j2lenget j2len j + 1"
      from False have bj: "blo \<le> j" by simp
      from j2lenget_le[OF Cons.prems(2) bj] have k1: "?k \<le> Suc i - alo" and k2: "?k \<le> Suc j - blo"
        using Cons.prems(1) bj by auto
      have d: "dict_ok blo (Suc i - alo) (new(j \<mapsto> ?k))"
        using Cons.prems(3) k1 k2 by (auto simp: dict_ok_def)
      have b: "best_ok alo blo (Suc i) bhi (Suc i - ?k, Suc j - ?k, ?k)"
        using k1 k2 ge Cons.prems(1) bj by (auto simp: best_ok_def)
      show ?thesis
      proof (cases "?k > bs")
        case True
        with Cons.prems(5) False ge best
        have "flm_row blo bhi i j2len js (new(j \<mapsto> ?k), Suc i - ?k, Suc j - ?k, ?k) = (new', best')"
          by (simp add: Let_def)
        from Cons.IH[OF Cons.prems(1,2) d b this] show ?thesis .
      next
        case nb: False
        with Cons.prems(5) False ge best
        have "flm_row blo bhi i j2len js (new(j \<mapsto> ?k), best) = (new', best')"
          by (simp add: Let_def)
        from Cons.IH[OF Cons.prems(1,2) d Cons.prems(4) this] show ?thesis .
      qed
    qed
  qed
qed

lemma flm_rows_inv:
  "n = ahi - i \<Longrightarrow> alo \<le> i \<Longrightarrow> i \<le> max alo ahi \<Longrightarrow> dict_ok blo (i - alo) j2len \<Longrightarrow> best_ok alo blo i bhi best \<Longrightarrow>
   best_ok alo blo ahi bhi (flm_rows a b2j blo bhi [i..<ahi] (j2len, best))"
proof (induction n arbitrary: i j2len best)
  case 0
  then show ?case by (auto simp: best_ok_def max_def split: if_splits)
next
  case (Suc n)
  then have lt: "i < ahi" by simp
  then have upt: "[i..<ahi] = i # [Suc i..<ahi]" by (simp add: upt_conv_Cons)
  obtain new' best' where r: "flm_row blo bhi i j2len (b2j (a ! i)) (Map.empty, best) = (new', best')"
    by (cases "flm_row blo bhi i j2len (b2j (a ! i)) (Map.empty, best)")
  have b0: "best_ok alo blo (Suc i) bhi best"
    using Suc.prems(5) by (auto simp: best_ok_def)
  have d0: "dict_ok blo (Suc i - alo) Map.empty" by (simp add: dict_ok_def)
  from flm_row_inv[OF Suc.prems(2,4) d0 b0 r]
  have d: "dict_ok blo (Suc i - alo) new'" and b: "best_ok alo blo (Suc i) bhi best'" by auto
  have "best_ok alo blo ahi bhi (flm_rows a b2j blo bhi [Suc i..<ahi] (new', best'))"
    using Suc.IH[of "Suc i" new' best'] Suc.prems d b lt by simp
  then show ?case by (simp add: upt r)
qed

declare extend_down.simps [simp del] extend_up.simps [simp del]

lemma extend_down_inv:
  "best_ok alo blo ahi bhi best \<Longrightarrow> best_ok alo blo ahi bhi (extend_down a b alo blo best)"
proof (induction a b alo blo best rule: extend_down.induct)
  case (1 a b alo blo besti bestj bestsize)
  show ?case
  proof (cases "besti > alo \<and> bestj > blo \<and> a ! (besti - 1) = b ! (bestj - 1)")
    case True
    moreover have "best_ok alo blo ahi bhi (besti - 1, bestj - 1, bestsize + 1)"
      using "1.prems" True by (auto simp: best_ok_def)
    ultimately show ?thesis using "1.IH" by (subst extend_down.simps) simp
  next
    case False
    then show ?thesis using "1.prems" by (subst extend_down.simps) auto
  qed
qed

lemma extend_up_inv:
  "best_ok alo blo ahi bhi best \<Longrightarrow> best_ok alo blo ahi bhi (extend_up a b ahi bhi best)"
proof (induction a b ahi bhi best rule: extend_up.induct)
  case (1 a b ahi bhi besti bestj bestsize)
  show ?case
  proof (cases "besti + bestsize < ahi \<and> bestj + bestsize < bhi \<and> a ! (besti + bestsize) = b ! (bestj + bestsize)")
    case True
    moreover have "best_ok alo blo ahi bhi (besti, bestj, bestsize + 1)"
      using "1.prems" True by (auto simp: best_ok_def)
    ultimately show ?thesis using "1.IH" by (subst extend_up.simps) simp
  next
    case False
    then show ?thesis using "1.prems" by (subst extend_up.simps) auto
  qed
qed

lemma find_longest_match_bounds:
  "find_longest_match a b alo ahi blo bhi = (i, j, k) \<Longrightarrow>
   alo \<le> i \<and> blo \<le> j \<and> (k \<noteq> 0 \<longrightarrow> i + k \<le> ahi \<and> j + k \<le> bhi)"
proof -
  assume r: "find_longest_match a b alo ahi blo bhi = (i, j, k)"
  have "best_ok alo blo alo bhi (alo, blo, 0)" by (simp add: best_ok_def)
  moreover have "dict_ok blo (alo - alo) Map.empty" by (simp add: dict_ok_def)
  ultimately have "best_ok alo blo ahi bhi (flm_rows a (chain_b b) blo bhi [alo..<ahi] (Map.empty, alo, blo, 0))"
    using flm_rows_inv[of "ahi - alo" ahi alo alo blo Map.empty bhi "(alo, blo, 0)" a "chain_b b"] by simp
  then have "best_ok alo blo ahi bhi (find_longest_match a b alo ahi blo bhi)"
    unfolding find_longest_match_def Let_def by (intro extend_up_inv extend_down_inv)
  with r show ?thesis by (auto simp: best_ok_def max_def split: if_splits)
qed

text \<open>
  The loop of \<open>get_matching_blocks\<close>. \<open>queue\<close> is used as a stack (\<open>pop()\<close> takes the
  element appended last), so the head of the list is the top of the stack.
\<close>

function mb_loop :: "'a list \<Rightarrow> 'a list \<Rightarrow> (nat \<times> nat \<times> nat \<times> nat) list \<Rightarrow>
    (nat \<times> nat \<times> nat) list \<Rightarrow> (nat \<times> nat \<times> nat) list" where
  "mb_loop a b [] matching_blocks = matching_blocks"
| "mb_loop a b ((alo, ahi, blo, bhi) # queue) matching_blocks =
     (case find_longest_match a b alo ahi blo bhi of
        (i, j, k) \<Rightarrow>
          if k \<noteq> 0 then
            mb_loop a b
              ((if i + k < ahi \<and> j + k < bhi then [(i + k, ahi, j + k, bhi)] else []) @
               (if alo < i \<and> blo < j then [(alo, i, blo, j)] else []) @ queue)
              (matching_blocks @ [(i, j, k)])
          else mb_loop a b queue matching_blocks)"
  by pat_completeness auto
termination
  apply (relation "measure (\<lambda>(a, b, queue, mbs).
          sum_list (map (\<lambda>(alo, ahi, blo, bhi). 2 * (ahi - alo) + 1) queue))")
    apply simp
   apply (auto dest!: find_longest_match_bounds[OF sym])
  done

text \<open>The loop that collapses adjacent blocks, then the sentinel block.\<close>

fun collapse :: "(nat \<times> nat \<times> nat) list \<Rightarrow> nat \<times> nat \<times> nat \<Rightarrow> (nat \<times> nat \<times> nat) list \<Rightarrow>
    (nat \<times> nat \<times> nat) list \<times> (nat \<times> nat \<times> nat)" where
  "collapse [] st non_adjacent = (non_adjacent, st)"
| "collapse ((i2, j2, k2) # rest) (i1, j1, k1) non_adjacent =
     (if i1 + k1 = i2 \<and> j1 + k1 = j2 then collapse rest (i1, j1, k1 + k2) non_adjacent
      else collapse rest (i2, j2, k2)
             (if k1 \<noteq> 0 then non_adjacent @ [(i1, j1, k1)] else non_adjacent))"

definition get_matching_blocks :: "'a list \<Rightarrow> 'a list \<Rightarrow> (nat \<times> nat \<times> nat) list" where
  "get_matching_blocks a b =
     (let la = length a; lb = length b;
          matching_blocks = sort (mb_loop a b [(0, la, 0, lb)] [])
      in case collapse matching_blocks (0, 0, 0) [] of
           (non_adjacent, (i1, j1, k1)) \<Rightarrow>
             (if k1 \<noteq> 0 then non_adjacent @ [(i1, j1, k1)] else non_adjacent) @ [(la, lb, 0)])"

datatype tag = Replace | Delete | Insert | Equal

type_synonym opcode = "tag \<times> nat \<times> nat \<times> nat \<times> nat"

fun opcodes_loop :: "(nat \<times> nat \<times> nat) list \<Rightarrow> nat \<Rightarrow> nat \<Rightarrow> opcode list \<Rightarrow> opcode list" where
  "opcodes_loop [] i j answer = answer"
| "opcodes_loop ((ai, bj, sz) # rest) i j answer =
     (let tag = (if i < ai \<and> j < bj then Some Replace
                 else if i < ai then Some Delete
                 else if j < bj then Some Insert
                 else None);
          answer = (case tag of Some t \<Rightarrow> answer @ [(t, i, ai, j, bj)] | None \<Rightarrow> answer);
          i = ai + sz; j = bj + sz;
          answer = (if sz \<noteq> 0 then answer @ [(Equal, ai, i, bj, j)] else answer)
      in opcodes_loop rest i j answer)"

definition get_opcodes :: "'a list \<Rightarrow> 'a list \<Rightarrow> opcode list" where
  "get_opcodes a b = opcodes_loop (get_matching_blocks a b) 0 0 []"

text \<open>
  \<open>ratio\<close> is a Python float; it is modelled by the real number it rounds. The
  comparisons of \<open>__diff_line\<close> only use its order against the threshold.
\<close>

definition calculate_ratio :: "nat \<Rightarrow> nat \<Rightarrow> real" where
  "calculate_ratio matches len =
     (if len \<noteq> 0 then 2 * real matches / real len else 1)"

definition ratio :: "'a list \<Rightarrow> 'a list \<Rightarrow> real" where
  "ratio a b =
     calculate_ratio (sum_list (map (\<lambda>(i, j, k). k) (get_matching_blocks a b)))
       (length a + length b)"

subsection \<open>\<open>__diff_line\<close> and \<open>__diff_lines\<close>\<close>

text \<open>Python's \<open>xs[i:j]\<close> for indices that are not negative.\<close>

definition slice :: "'a list \<Rightarrow> nat \<Rightarrow> nat \<Rightarrow> 'a list" where
  "slice xs i j = drop i (take j xs)"

fun diff_line_loop :: "pystr \<Rightarrow> pystr \<Rightarrow> opcode list \<Rightarrow> pystr \<Rightarrow> pystr" where
  "diff_line_loop a b [] out = out"
| "diff_line_loop a b ((tag, i1, i2, j1, j2) # ops) out =
     diff_line_loop a b ops
       (case tag of
          Equal \<Rightarrow> out @ slice a i1 i2
        | Delete \<Rightarrow> out @ strikethrough (slice a i1 i2)
        | Insert \<Rightarrow> out @ underline (slice b j1 j2)
        | Replace \<Rightarrow> (out @ strikethrough (slice a i1 i2)) @ underline (slice b j1 j2))"

text \<open>The result \<open>None\<close> is the sentinel of a pair of strings that is not diffed.\<close>

definition diff_line :: "pystr \<Rightarrow> pystr \<Rightarrow> real \<Rightarrow> pystr option" where
  "diff_line a b limit =
     (if limit > 0 \<and> limit \<ge> ratio a b then None
      else Some (diff_line_loop a b (get_opcodes a b) []))"

fun diff_lines_zip :: "(pystr \<times> pystr) list \<Rightarrow> pystr list \<Rightarrow> pystr list" where
  "diff_lines_zip [] out = out"
| "diff_lines_zip ((a_line, b_line) # rest) out =
     diff_lines_zip rest
       (case diff_line a_line b_line (1/2) of
          None \<Rightarrow> out @ [strikethrough a_line] @ [underline b_line]
        | Some diff \<Rightarrow> out @ [diff])"

fun diff_lines_loop :: "pystr list \<Rightarrow> pystr list \<Rightarrow> opcode list \<Rightarrow> pystr list \<Rightarrow> pystr list" where
  "diff_lines_loop a b [] out = out"
| "diff_lines_loop a b ((tag, i1, i2, j1, j2) # ops) out =
     diff_lines_loop a b ops
       (case tag of
          Equal \<Rightarrow> out @ slice a i1 i2
        | Delete \<Rightarrow> out @ map (\<lambda>i. strikethrough (a ! i)) [i1..<i2]
        | Insert \<Rightarrow> out @ map (\<lambda>j. underline (b ! j)) [j1..<j2]
        | Replace \<Rightarrow>
            diff_lines_zip (zip (slice a i1 i2) (slice b j1 j2)) out
              @ map (\<lambda>i. strikethrough (a ! i)) [i1 + (j2 - j1)..<i2]
              @ map (\<lambda>j. underline (b ! j)) [j1 + (i2 - i1)..<j2])"

definition diff_lines :: "pystr list \<Rightarrow> pystr list \<Rightarrow> pystr list" where
  "diff_lines a b = diff_lines_loop a b (get_opcodes a b) []"

section \<open>Captured I/O session\<close>

subsection \<open>String methods\<close>

text \<open>The characters that \<open>str.rstrip()\<close> and \<open>str.split()\<close> treat as whitespace.\<close>

definition is_space :: "nat \<Rightarrow> bool" where
  "is_space c \<longleftrightarrow>
     (9 \<le> c \<and> c \<le> 13) \<or> (28 \<le> c \<and> c \<le> 32) \<or> c = 133 \<or> c = 160 \<or> c = 5760
     \<or> (8192 \<le> c \<and> c \<le> 8202) \<or> c = 8232 \<or> c = 8233 \<or> c = 8239 \<or> c = 8287
     \<or> c = 12288"

definition rstrip :: "pystr \<Rightarrow> pystr" where
  "rstrip s = rev (dropWhile is_space (rev s))"

text \<open>\<open>s.rstrip('\n')\<close>\<close>

definition rstrip_nl :: "pystr \<Rightarrow> pystr" where
  "rstrip_nl s = rev (dropWhile (\<lambda>c. c = NL) (rev s))"

text \<open>\<open>s.split('\n')\<close>: never the empty list.\<close>

fun split_nl :: "pystr \<Rightarrow> pystr list" where
  "split_nl [] = [[]]"
| "split_nl (c # cs) =
     (if c = NL then [] # split_nl cs
      else (case split_nl cs of l # ls \<Rightarrow> (c # l) # ls | [] \<Rightarrow> [[c]]))"

text \<open>\<open>sep.join(xs)\<close>\<close>

fun join :: "pystr \<Rightarrow> pystr list \<Rightarrow> pystr" where
  "join sep [] = []"
| "join sep [x] = x"
| "join sep (x # y # ys) = x @ sep @ join sep (y # ys)"

text \<open>
  \<open>s.splitlines()\<close>: the line boundaries of Python (\<open>\r\n\<close> counts once), no empty
  string after a final boundary.
\<close>

definition is_linebreak :: "nat \<Rightarrow> bool" where
  "is_linebreak c \<longleftrightarrow>
     (10 \<le> c \<and> c \<le> 13) \<or> (28 \<le> c \<and> c \<le> 30) \<or> c = 133 \<or> c = 8232 \<or> c = 8233"

fun splitlines_from :: "pystr \<Rightarrow> pystr \<Rightarrow> pystr list" where
  "splitlines_from cur [] = (if cur = [] then [] else [cur])"
| "splitlines_from cur [c] =
     (if is_linebreak c then [cur] else [cur @ [c]])"
| "splitlines_from cur (c # d # cs) =
     (if c = 13 \<and> d = 10 then cur # splitlines_from [] cs
      else if is_linebreak c then cur # splitlines_from [] (d # cs)
      else splitlines_from (cur @ [c]) (d # cs))"

definition splitlines :: "pystr \<Rightarrow> pystr list" where
  "splitlines s = splitlines_from [] s"

text \<open>\<open>_indent_lines\<close> and \<open>_indent_lines_maybe\<close> of \<open>_utils.py\<close>.\<close>

definition indent_lines :: "pystr \<Rightarrow> nat \<Rightarrow> pystr" where
  "indent_lines string spaces =
     (if string = [] then string
      else (let spaces = replicate spaces 32
            in spaces @ join (NL # spaces) (splitlines string)))"

definition indent_lines_maybe :: "pystr \<Rightarrow> nat \<Rightarrow> bool \<Rightarrow> pystr" where
  "indent_lines_maybe string spaces no =
     (if no then string else NL # indent_lines string spaces)"

subsection \<open>The simulated streams\<close>

text \<open>
  The state of one call of \<open>__check_input\<close>: \<open>out\<close> is \<open>out.getvalue()\<close>, \<open>inpt\<close> the
  text behind \<open>in_\<close>, \<open>pos\<close> is \<open>in_.tell()\<close>, and \<open>inpt_ranges\<close> the list of that name.
\<close>

record session =
  out :: pystr
  inpt :: pystr
  pos :: nat
  inpt_ranges :: "(nat \<times> nat) list"

text \<open>
  \<open>io.StringIO.read(in_, size)\<close> and \<open>io.StringIO.readline(in_, size)\<close>: the data and the
  new position. No size, \<open>None\<close> or a negative size read to the end (of the text, of the
  line). The stream was opened with the default \<open>newline\<close>, so a line ends at \<open>\n\<close> only.
\<close>

definition stringio_read :: "pystr \<Rightarrow> nat \<Rightarrow> int option \<Rightarrow> pystr \<times> nat" where
  "stringio_read text p size_arg =
     (let rest = drop p text;
          data = (case size_arg of
                    None \<Rightarrow> rest
                  | Some n \<Rightarrow> if n < 0 then rest else take (nat n) rest)
      in (data, p + length data))"

definition stringio_readline :: "pystr \<Rightarrow> nat \<Rightarrow> int option \<Rightarrow> pystr \<times> nat" where
  "stringio_readline text p size_arg =
     (let rest = drop p text;
          line = (case dropWhile (\<lambda>c. c \<noteq> NL) rest of
                    [] \<Rightarrow> rest
                  | _ # _ \<Rightarrow> takeWhile (\<lambda>c. c \<noteq> NL) rest @ [NL]);
          data = (case size_arg of
                    None \<Rightarrow> line
                  | Some n \<Rightarrow> if n < 0 then line else take (nat n) line)
      in (data, p + length data))"

text \<open>The wrappers \<open>_read\<close> and \<open>_readline\<close> installed on \<open>in_\<close>.\<close>

definition instr_read :: "int option \<Rightarrow> session \<Rightarrow> pystr \<times> session" where
  "instr_read size_arg s =
     (case stringio_read (inpt s) (pos s) size_arg of
        (data, p) \<Rightarrow>
          (data, s\<lparr>pos := p,
                    inpt_ranges := inpt_ranges s @ [(length (out s), length data)],
                    out := out s @ data\<rparr>))"

definition instr_readline :: "int option \<Rightarrow> session \<Rightarrow> pystr \<times> session" where
  "instr_readline size_arg s =
     (case stringio_readline (inpt s) (pos s) size_arg of
        (data, p) \<Rightarrow>
          (data, s\<lparr>pos := p,
                    inpt_ranges := inpt_ranges s @ [(length (out s), length data)],
                    out := out s @ data\<rparr>))"

subsection \<open>The function under test\<close>

text \<open>
  The function under test is modelled by what it does to the redirected streams: it
  writes to \<open>sys.stdout\<close>, calls \<open>sys.stdin.read\<close> or \<open>sys.stdin.readline\<close> and goes on with
  the data, returns a value, or raises. \<open>EOFError\<close> is the exception \<open>__check_input\<close>
  catches; every other exception is \<open>OtherError\<close>.
\<close>

datatype exn = EOFError | OtherError

datatype 'r prog =
    Return 'r
  | Write pystr "'r prog"
  | Read "int option" "pystr \<Rightarrow> 'r prog"
  | Readline "int option" "pystr \<Rightarrow> 'r prog"
  | Raise exn


primrec run :: "'r prog \<Rightarrow> session \<Rightarrow> (exn + 'r) \<times> session" where
  "run (Return retval) = (\<lambda>s. (Inr retval, s))"
| "run (Write data k) = (\<lambda>s. run k (s\<lparr>out := out s @ data\<rparr>))"
| "run (Read size_arg k) = (\<lambda>s. case instr_read size_arg s of (data, s') \<Rightarrow> run (k data) s')"
| "run (Readline size_arg k) = (\<lambda>s. case instr_readline size_arg s of (data, s') \<Rightarrow> run (k data) s')"
| "run (Raise e) = (\<lambda>s. (Inl e, s))"

subsection \<open>\<open>__check_input\<close>\<close>

text \<open>
  A raised \<open>_helpful_failure\<close> carries its message; any other exception of the function
  under test leaves \<open>__check_input\<close> as it is.
\<close>

datatype failure = HelpfulFailure pystr | Propagated exn

definition new_session :: "pystr \<Rightarrow> session" where
  "new_session text = \<lparr>out = [], inpt = text, pos = 0, inpt_ranges = []\<rparr>"

text \<open>
  The first assignment of \<open>msg\<close>. The text of \<open>__call_to_str(func, args, kwargs)\<close> depends
  on \<open>repr\<close> of the arguments and is a parameter, \<open>call\<close>.
\<close>

definition intro_msg :: "pystr \<Rightarrow> pystr \<Rightarrow> pystr" where
  "intro_msg call text =
     ascii ''The function call was: '' @ call @ [NL] @ ascii ''The '' @ [39] @ ascii ''user''
       @ [39] @ ascii '' typed:'' @ [NL] @ indent_lines text 4 @ [NL]"

definition MSG_EOF :: pystr where
  "MSG_EOF = ascii ''You read all information given and then kept trying to get more input.''"

definition MSG_NO_INPUT :: pystr where
  "MSG_NO_INPUT = ascii ''You did not read any input at all.''"

definition MSG_LEFTOVER :: pystr where
  "MSG_LEFTOVER =
     ascii ''Not all of that input was used, you stopped reading input once you got:'' @ [NL]"

definition check_input ::
    "pystr \<Rightarrow> 'r prog \<Rightarrow> pystr \<Rightarrow> failure + (pystr \<times> 'r \<times> pystr \<times> (nat \<times> nat) list)" where
  "check_input call func text =
     (let msg = intro_msg call text
      in case run func (new_session text) of
           (Inl EOFError, s) \<Rightarrow> Inl (HelpfulFailure (msg @ MSG_EOF))
         | (Inl OtherError, s) \<Rightarrow> Inl (Propagated OtherError)
         | (Inr retval, s) \<Rightarrow>
             if pos s = 0 then Inl (HelpfulFailure (msg @ MSG_NO_INPUT))
             else (case instr_read None s of
                     (rem, s) \<Rightarrow>
                       if rem \<noteq> [] then
                         Inl (HelpfulFailure (msg @ MSG_LEFTOVER @
                           indent_lines
                             (last (split_nl (rstrip_nl (take (length text - length rem) text))))
                             4))
                       else Inr (msg, retval, rstrip (out s), inpt_ranges s)))"

section \<open>Output comparator\<close>

text \<open>\<open>s.split()\<close>: the maximal runs of characters that are not whitespace.\<close>

fun split_ws_from :: "pystr \<Rightarrow> pystr \<Rightarrow> pystr list" where
  "split_ws_from cur [] = (if cur = [] then [] else [cur])"
| "split_ws_from cur (c # cs) =
     (if is_space c then (if cur = [] then split_ws_from [] cs else cur # split_ws_from [] cs)
      else split_ws_from (cur @ [c]) cs)"

definition split_ws :: "pystr \<Rightarrow> pystr list" where
  "split_ws s = split_ws_from [] s"

text \<open>
  The values of \<open>_whitespace\<close>. The chain of comparisons in \<open>__check_output\<close> has no
  final \<open>else\<close>: any other value (\<open>OtherMode\<close>) leaves both texts as they are.
\<close>

datatype whitespace = Relaxed | Ignore | Strict | OtherMode

definition ws_normalize :: "whitespace \<Rightarrow> pystr \<Rightarrow> pystr" where
  "ws_normalize ws s =
     (case ws of
        Relaxed \<Rightarrow> join [NL] (map rstrip (split_nl (rstrip_nl s)))
      | Ignore \<Rightarrow> join [] (split_ws s)
      | _ \<Rightarrow> s)"

text \<open>The loop over \<open>inpt_ranges\<close> that bolds the text the user typed.\<close>

fun bold_ranges :: "(nat \<times> nat) list \<Rightarrow> pystr \<Rightarrow> pystr" where
  "bold_ranges [] printed_orig = printed_orig"
| "bold_ranges ((start, len) # rest) printed_orig =
     bold_ranges rest (bold_substr printed_orig start (start + len))"

definition DIFF_LEGEND :: pystr where
  "DIFF_LEGEND =
     [NL] @ ascii ''Difference ('' @ [UNDER_MARK] @ ascii ''  are things your output is missing, ''
       @ [STRIKE_MARK] @ ascii ''  are things your output has extra):'' @ [NL]"

text \<open>
  The body of \<open>if mismatch:\<close>, up to the \<open>raise\<close>. \<open>printed\<close> and \<open>expected\<close> are the lists
  of lines compared (the branch with a diff is only taken when they are lists). A diff
  that is the sentinel would make \<open>_indent_lines\<close> fail on \<open>None\<close>.
\<close>

definition mismatch_failure ::
    "pystr \<Rightarrow> pystr \<Rightarrow> pystr \<Rightarrow> pystr list \<Rightarrow> pystr list \<Rightarrow> (nat \<times> nat) list \<Rightarrow>
     whitespace \<Rightarrow> bool \<Rightarrow> bool \<Rightarrow> failure" where
  "mismatch_failure msg printed_orig expected_orig printed expected ranges ws ordered regexp =
     (let single_line = (NL \<notin> set expected_orig \<and> NL \<notin> set printed_orig);
          expected_note =
            (if regexp then ascii '' (this is a regular-expression, so will likely look cryptic)''
             else []);
          printed_orig = (if ranges \<noteq> [] then bold_ranges ranges printed_orig else printed_orig);
          actual_note = (if ranges \<noteq> [] then ascii '' (green text is user entered)'' else []);
          msg = msg @ ascii ''Expected output'' @ expected_note @ ascii '': ''
                  @ indent_lines_maybe expected_orig 4 single_line;
          msg = msg @ [NL] @ ascii ''Actual output'' @ actual_note @ ascii '': ''
                  @ indent_lines_maybe printed_orig 4 single_line;
          diff = (if \<not> regexp \<and> ws \<noteq> Ignore then
                    (if single_line then diff_line (hd printed) (hd expected) 0
                     else Some (join [NL] (diff_lines printed expected)))
                  else Some []);
          note_ws = (if ws = Ignore then [NL] @ ascii ''Note: all whitespace is ignored'' else []);
          note_ord = (if \<not> ordered then [NL] @ ascii ''Note: order of the lines does not matter''
                      else [])
      in case diff of
           None \<Rightarrow> Propagated OtherError
         | Some d \<Rightarrow>
             HelpfulFailure
               ((if \<not> regexp \<and> ws \<noteq> Ignore then msg @ DIFF_LEGEND @ indent_lines d 4 else msg)
                @ note_ws @ note_ord))"

text \<open>
  \<open>__check_output\<close>: \<open>None\<close> when the call returns (the texts match), the raised failure
  otherwise. \<open>re_search pattern string\<close> stands for
  \<open>re.search(pattern, string) is not None\<close>, code of the standard library.
\<close>

definition check_output ::
    "(pystr \<Rightarrow> pystr \<Rightarrow> bool) \<Rightarrow> pystr \<Rightarrow> pystr \<Rightarrow> (nat \<times> nat) list \<Rightarrow> pystr \<Rightarrow>
     whitespace \<Rightarrow> bool \<Rightarrow> bool \<Rightarrow> failure option" where
  "check_output re_search msg printed ranges expected ws ordered regexp =
     (let printed_orig = printed;
          expected_orig = expected;
          printed = ws_normalize ws printed_orig;
          expected = ws_normalize ws expected;
          printed_lines = split_nl printed;
          expected_lines = split_nl expected;
          printed_lines = (if \<not> ordered then sort printed_lines else printed_lines);
          expected_lines = (if \<not> ordered then sort expected_lines else expected_lines);
          mismatch =
            (if \<not> regexp then printed_lines \<noteq> expected_lines
             else if \<not> ordered then
               list_ex (\<lambda>(e, p). \<not> re_search e p) (zip expected_lines printed_lines)
             else \<not> re_search expected printed)
      in if mismatch then
           Some (mismatch_failure msg printed_orig expected_orig printed_lines expected_lines
                   ranges ws ordered regexp)
         else None)"


section \<open>Assertion result enrichment (\<open>_testcase_assert_mod.py\<close>)\<close>

subsection \<open>The call site\<close>

text \<open>
  The syntax tree of the line of the test, as far as \<open>__extract_from_assert_call\<close> and
  \<open>__is_value\<close> look at it. \<open>Constant\<close> stands for the literal nodes (\<open>ast.Num\<close>,
  \<open>ast.Str\<close>, \<open>ast.Bytes\<close>, \<open>ast.NameConstant\<close>, \<open>ast.Ellipsis\<close>), \<open>OtherExpr\<close> for every
  expression that is neither a call nor one of the kinds \<open>__is_value\<close> lists, \<open>OtherStmt\<close>
  for every statement that is not an expression statement.
\<close>

datatype expr =
    Call expr "expr list"
  | Attribute expr string
  | Name string
  | Constant
  | ListExpr
  | TupleExpr
  | SetExpr
  | DictExpr
  | Subscript
  | OtherExpr

datatype stmt = Expr expr | OtherStmt

datatype pyerr = IndexError | KeyError string | UnboundLocalError string | TypeError | AttributeError

fun is_call :: "expr \<Rightarrow> bool" where
  "is_call (Call f args) = True"
| "is_call e = False"

fun is_value :: "expr \<Rightarrow> bool" where
  "is_value (Call f args) = False"
| "is_value OtherExpr = False"
| "is_value e = True"

fun is_self_assert :: "expr \<Rightarrow> bool" where
  "is_self_assert (Attribute (Name ident) attr) = (ident = ''self'' \<and> take 6 attr = ''assert'')"
| "is_self_assert e = False"

text \<open>
  \<open>__extract_from_assert_call(node, max_check)\<close>. \<open>node\<close> is \<open>None\<close> when no node of the
  file covers the line. \<open>to_source e\<close> stands for \<open>to_source(e).strip()\<close> of the \<open>astor\<close>
  library. \<open>args[0]\<close> and \<open>args[1]\<close> raise \<open>IndexError\<close> on a shorter list of arguments; the
  operands of \<open>and\<close> are evaluated from the left.
\<close>

definition extract_from_assert_call ::
    "(expr \<Rightarrow> pystr) \<Rightarrow> stmt option \<Rightarrow> nat \<Rightarrow> pyerr + (pystr option \<times> int)" where
  "extract_from_assert_call to_source node max_check =
     (case node of
        Some (Expr (Call func args)) \<Rightarrow>
          if \<not> is_self_assert func then Inr (None, - 1)
          else (case args of
                  [] \<Rightarrow> Inl IndexError
                | a0 # rest \<Rightarrow>
                    (case (if is_call a0
                           then (case rest of [] \<Rightarrow> Inl IndexError | a1 # _ \<Rightarrow> Inr (is_value a1))
                           else Inr False) of
                       Inl e \<Rightarrow> Inl e
                     | Inr True \<Rightarrow> Inr (Some (to_source a0), 0)
                     | Inr False \<Rightarrow>
                         if max_check > 1
                         then (case rest of
                                 [] \<Rightarrow> Inl IndexError
                               | a1 # _ \<Rightarrow>
                                   if is_call a1 \<and> is_value a0 then Inr (Some (to_source a1), 1)
                                   else Inr (None, - 1))
                         else Inr (None, - 1)))
      | _ \<Rightarrow> Inr (None, - 1))"

subsection \<open>Values and their rendering\<close>

text \<open>
  The compared values are Python objects of any kind, a type parameter \<open>'v\<close>. What the
  code asks of them is collected in a record: \<open>repr\<close>, the text of a \<open>str\<close>, \<open>str()\<close> as
  \<open>format\<close> inserts it, \<open>is None\<close>, \<open>round\<close>, \<open>id\<close>, \<open>type(x).__name__\<close>,
  \<open>isinstance(x, type)\<close>, \<open>x.__name__\<close> and the tuple of the names of the classes in \<open>x\<close>.
\<close>

record 'v runtime =
  repr_val :: "'v \<Rightarrow> pystr"
  repr_str :: "pystr \<Rightarrow> pystr"
  str_of :: "'v \<Rightarrow> pystr option"
  format_val :: "'v \<Rightarrow> pystr"
  is_none :: "'v \<Rightarrow> bool"
  round_val :: "'v \<Rightarrow> 'v \<Rightarrow> pyerr + 'v"
  seven :: 'v
  id_val :: "'v \<Rightarrow> 'v"
  type_name :: "'v \<Rightarrow> pystr"
  is_type :: "'v \<Rightarrow> bool"
  class_name :: "'v \<Rightarrow> pyerr + pystr"
  class_names :: "'v \<Rightarrow> pyerr + 'v"

text \<open>An entry of the dictionary \<open>values\<close>: a compared value, or a string made by the code.\<close>

datatype 'v slot = Val 'v | Txt pystr

text \<open>\<open>__repr(x)\<close> with \<open>force_long=False\<close>.\<close>

definition repr_block :: "'v runtime \<Rightarrow> 'v slot \<Rightarrow> pystr" where
  "repr_block rt x =
     (let x = (case x of
                 Txt s \<Rightarrow> if NL \<in> set s \<and> length s < 20 then s else repr_str rt s
               | Val v \<Rightarrow>
                   (case str_of rt v of
                      Some s \<Rightarrow> if NL \<in> set s \<and> length s < 20 then s else repr_val rt v
                    | None \<Rightarrow> repr_val rt v))
      in if NL \<in> set x \<or> length x > 20 then NL # indent_lines x 4 else x)"

subsection \<open>The tables\<close>

definition NUM_ARGS :: "string \<rightharpoonup> nat" where
  "NUM_ARGS = [''True'' \<mapsto> 1, ''False'' \<mapsto> 1, ''IsNone'' \<mapsto> 1, ''IsNotNone'' \<mapsto> 1,
               ''AlmostEqual'' \<mapsto> 3, ''NotAlmostEqual'' \<mapsto> 3]"

text \<open>\<open>__NUM_ARGS.get(name, 2)\<close>\<close>

definition num_args :: "string \<Rightarrow> nat" where
  "num_args name = (case NUM_ARGS name of Some n \<Rightarrow> n | None \<Rightarrow> 2)"

definition NO_FUNC_CALL :: "string set" where
  "NO_FUNC_CALL = {''In'', ''NotIn''}"

text \<open>A template is its literal text and its named slots, in order.\<close>

datatype piece = Lit pystr | Slot string

definition TEMPLATE_LIST :: "(string \<times> piece list) list" where
  "TEMPLATE_LIST =
    [(''Equal'', [Lit (ascii ''Expected return value: ''), Slot ''expected'',
                  Lit (NL # ascii ''Actual return value:   ''), Slot ''actual'']),
     (''NotEqual'', [Lit (ascii ''Expected return value to *not* be: ''), Slot ''expected'',
                     Lit (NL # ascii ''Actual return value: ''), Slot ''actual'']),
     (''Greater'', [Lit (ascii ''Expected return value to be greater than: ''), Slot ''expected'',
                    Lit (NL # ascii ''Actual return value: ''), Slot ''actual'']),
     (''GreaterEqual'',
        [Lit (ascii ''Expected return value to be greater than or equal to: ''), Slot ''expected'',
         Lit (NL # ascii ''Actual return value: ''), Slot ''actual'']),
     (''Less'', [Lit (ascii ''Expected return value to be less than: ''), Slot ''expected'',
                 Lit (NL # ascii ''Actual return value: ''), Slot ''actual'']),
     (''LessEqual'',
        [Lit (ascii ''Expected return value to be less than or equal to: ''), Slot ''expected'',
         Lit (NL # ascii ''Actual return value: ''), Slot ''actual'']),
     (''AlmostEqual'',
        [Lit (ascii ''Expected return value: ''), Slot ''expected'',
         Lit (ascii '' once rounded to ''), Slot ''places'', Lit (ascii '' places'' @ [NL]),
         Lit (ascii ''Actual return value:   ''), Slot ''actual'',
         Lit (ascii '' once rounded to ''), Slot ''places'', Lit (ascii '' places'')]),
     (''NotAlmostEqual'',
        [Lit (ascii ''Expected return value to *not* be: ''), Slot ''expected'',
         Lit (ascii '' once rounded to ''), Slot ''places'', Lit (ascii '' places'' @ [NL]),
         Lit (ascii ''Actual return value: ''), Slot ''actual'',
         Lit (ascii '' once rounded to ''), Slot ''places'', Lit (ascii '' places'')]),
     (''AlmostEqualDelta'',
        [Lit (ascii ''Expected return value: ''), Slot ''expected'', Lit [177], Slot ''delta'',
         Lit (NL # ascii ''Actual return value:   ''), Slot ''actual'']),
     (''NotAlmostEqualDelta'',
        [Lit (ascii ''Expected return value to *not* be: ''), Slot ''expected'', Lit [177],
         Slot ''delta'', Lit [NL], Lit (ascii ''Actual return value: ''), Slot ''actual'']),
     (''True'', [Lit (ascii ''Expected return value to be True but was: ''), Slot ''actual'']),
     (''False'', [Lit (ascii ''Expected return value to be False but was: ''), Slot ''actual'']),
     (''IsNone'', [Lit (ascii ''Expected return value to be None but was: ''), Slot ''actual'']),
     (''IsNotNone'',
        [Lit (ascii ''Expected return value to *not* be None but was: ''), Slot ''actual'']),
     (''Is'', [Lit (ascii ''Expected return value: ''), Slot ''expected'', Lit (ascii '' with id ''),
               Slot ''expected_id'', Lit [NL], Lit (ascii ''Actual return value:   ''),
               Slot ''actual'', Lit (ascii '' with id ''), Slot ''actual_id'']),
     (''IsNot'', [Lit (ascii ''Expected return value to *not* be: ''), Slot ''actual'',
                  Lit (ascii '' with id ''), Slot ''actual_id'']),
     (''IsInstance'',
        [Lit (ascii ''Expected return value to have type ''), Slot ''expected'', Lit [NL],
         Lit (ascii ''Actual return value:   ''), Slot ''actual'', Lit (ascii '' has type ''),
         Slot ''actual_type'']),
     (''NotIsInstance'',
        [Lit (ascii ''Expected return value to *not* have type ''), Slot ''expected'', Lit [NL],
         Lit (ascii ''Actual return value: ''), Slot ''actual'', Lit (ascii '' has type ''),
         Slot ''actual_type'']),
     (''In'', [Lit (ascii ''Expected return value to be in: ''), Slot ''second'',
               Lit (NL # ascii ''Actual return value: ''), Slot ''first'']),
     (''NotIn'', [Lit (ascii ''Expected return value to *not* be in: ''), Slot ''second'',
                  Lit (NL # ascii ''Actual return value: ''), Slot ''first'']),
     (''Contains'', [Lit (ascii ''Expected return value to contain: ''), Slot ''first'',
                     Lit (NL # ascii ''Actual return value: ''), Slot ''second'']),
     (''NotContains'', [Lit (ascii ''Expected return value to *not* contain: ''), Slot ''first'',
                        Lit (NL # ascii ''Actual return value: ''), Slot ''second''])]"

definition TEMPLATES :: "string \<rightharpoonup> piece list" where
  "TEMPLATES = map_of TEMPLATE_LIST"

text \<open>\<open>template.format(**values)\<close>: the first slot that \<open>values\<close> lacks raises \<open>KeyError\<close>.\<close>

fun format_template :: "'v runtime \<Rightarrow> piece list \<Rightarrow> (string \<rightharpoonup> 'v slot) \<Rightarrow> pyerr + pystr" where
  "format_template rt [] values = Inr []"
| "format_template rt (Lit t # ps) values =
     (case format_template rt ps values of Inl e \<Rightarrow> Inl e | Inr r \<Rightarrow> Inr (t @ r))"
| "format_template rt (Slot k # ps) values =
     (case values k of
        None \<Rightarrow> Inl (KeyError k)
      | Some x \<Rightarrow>
          (case format_template rt ps values of
             Inl e \<Rightarrow> Inl e
           | Inr r \<Rightarrow> Inr ((case x of Val v \<Rightarrow> format_val rt v | Txt t \<Rightarrow> t) @ r)))"

subsection \<open>\<open>__add_helpful_msg\<close>\<close>

definition and_then :: "'e + 'a \<Rightarrow> ('a \<Rightarrow> 'e + 'b) \<Rightarrow> 'e + 'b" where
  "and_then r f = (case r of Inl e \<Rightarrow> Inl e | Inr x \<Rightarrow> f x)"

text \<open>\<open>args[i]\<close>, \<open>values[k]\<close> and \<open>kwargs.get(k, None) is None\<close>.\<close>

definition arg_at :: "'v list \<Rightarrow> nat \<Rightarrow> pyerr + 'v" where
  "arg_at args i = (if i < length args then Inr (args ! i) else Inl IndexError)"

definition value_at :: "(string \<rightharpoonup> 'v slot) \<Rightarrow> string \<Rightarrow> pyerr + 'v slot" where
  "value_at values k = (case values k of Some x \<Rightarrow> Inr x | None \<Rightarrow> Inl (KeyError k))"

definition kw_is_none :: "'v runtime \<Rightarrow> (string \<rightharpoonup> 'v) \<Rightarrow> string \<Rightarrow> bool" where
  "kw_is_none rt kwargs k = (case kwargs k of None \<Rightarrow> True | Some v \<Rightarrow> is_none rt v)"

text \<open>The dictionary literal that replaces the name of an ordering assertion.\<close>

definition SWAP :: "string \<rightharpoonup> string" where
  "SWAP = [''Greater'' \<mapsto> ''LessEqual'', ''LessEqual'' \<mapsto> ''Greater'',
           ''GreaterEqual'' \<mapsto> ''Less'', ''Less'' \<mapsto> ''GreaterEqual'']"

text \<open>
  The branch \<open>if index == 0: ... else: ...\<close>: which argument is the actual and which the
  expected value, and the name of the template. \<open>index\<close> is \<open>None\<close> when the variable was
  never assigned; reading it raises \<open>UnboundLocalError\<close>.
\<close>

definition assign_values ::
    "string \<Rightarrow> int option \<Rightarrow> 'v list \<Rightarrow> pyerr + (string \<times> (string \<rightharpoonup> 'v slot))" where
  "assign_values name index args =
     (case index of
        None \<Rightarrow> Inl (UnboundLocalError ''index'')
      | Some i \<Rightarrow>
          and_then (arg_at args 0) (\<lambda>a0.
          and_then (arg_at args 1) (\<lambda>a1.
            if i = 0 then
              Inr ((if name \<in> {''Greater'', ''GreaterEqual'', ''Less'', ''LessEqual''}
                    then (case SWAP name of Some n \<Rightarrow> n | None \<Rightarrow> name) else name),
                   [''actual'' \<mapsto> Val a0, ''expected'' \<mapsto> Val a1])
            else Inr (name, [''expected'' \<mapsto> Val a0, ''actual'' \<mapsto> Val a1]))))"

text \<open>The special case of \<open>AlmostEqual\<close> and \<open>NotAlmostEqual\<close>.\<close>

definition almost_equal_case ::
    "'v runtime \<Rightarrow> string \<Rightarrow> 'v list \<Rightarrow> (string \<rightharpoonup> 'v) \<Rightarrow> (string \<rightharpoonup> 'v slot) \<Rightarrow>
     pyerr + (string \<times> (string \<rightharpoonup> 'v slot))" where
  "almost_equal_case rt name args kwargs values =
     (if name \<in> {''AlmostEqual'', ''NotAlmostEqual''} then
        and_then (if length args = 2 then Inr True
                  else and_then (arg_at args 2) (\<lambda>a2.
                         Inr (\<not> is_none rt a2 \<or> \<not> kw_is_none rt kwargs ''places''))) (\<lambda>by_places.
          if by_places then
            and_then (if length args > 2 then arg_at args 2 else Inr (seven rt)) (\<lambda>dflt.
              let places = (case kwargs ''places'' of Some p \<Rightarrow> p | None \<Rightarrow> dflt)
              in and_then (value_at values ''actual'') (\<lambda>actual.
                 and_then (case actual of Val v \<Rightarrow> round_val rt v places | Txt t \<Rightarrow> Inl TypeError)
                   (\<lambda>actual.
                 and_then (value_at values ''expected'') (\<lambda>expected.
                 and_then (case expected of Val v \<Rightarrow> round_val rt v places | Txt t \<Rightarrow> Inl TypeError)
                   (\<lambda>expected.
                   Inr (name, values(''places'' \<mapsto> Val places, ''actual'' \<mapsto> Val actual,
                                     ''expected'' \<mapsto> Val expected)))))))
          else
            and_then (if kw_is_none rt kwargs ''delta'' then arg_at args 4
                      else (case kwargs ''delta'' of Some d \<Rightarrow> Inr d | None \<Rightarrow> Inl (KeyError ''delta'')))
              (\<lambda>delta. Inr (name @ ''Delta'', values(''delta'' \<mapsto> Val delta))))
      else Inr (name, values))"

text \<open>The special case of \<open>Is\<close> and \<open>IsNot\<close>.\<close>

definition is_case ::
    "'v runtime \<Rightarrow> string \<Rightarrow> (string \<rightharpoonup> 'v slot) \<Rightarrow> pyerr + (string \<rightharpoonup> 'v slot)" where
  "is_case rt name values =
     (if name \<in> {''Is'', ''IsNot''} then
        and_then (value_at values ''expected'') (\<lambda>expected.
        and_then (value_at values ''actual'') (\<lambda>actual.
          and_then (case expected of Val v \<Rightarrow> Inr (id_val rt v) | Txt t \<Rightarrow> Inl TypeError) (\<lambda>eid.
          and_then (case actual of Val v \<Rightarrow> Inr (id_val rt v) | Txt t \<Rightarrow> Inl TypeError) (\<lambda>aid.
            Inr (values(''expected_id'' \<mapsto> Val eid, ''actual_id'' \<mapsto> Val aid))))))
      else Inr values)"

text \<open>
  The special case of \<open>IsInstance\<close> and \<open>IsNotInstance\<close>; \<open>None\<close> is the early \<open>return\<close>
  that leaves the exception without a message.
\<close>

definition is_instance_case ::
    "'v runtime \<Rightarrow> string \<Rightarrow> int \<Rightarrow> (string \<rightharpoonup> 'v slot) \<Rightarrow>
     pyerr + (string \<rightharpoonup> 'v slot) option" where
  "is_instance_case rt name index values =
     (if name \<in> {''IsInstance'', ''IsNotInstance''} then
        if index \<noteq> 0 then Inr None
        else
          and_then (value_at values ''actual'') (\<lambda>actual.
          and_then (value_at values ''expected'') (\<lambda>expected.
            case (actual, expected) of
              (Val a, Val e) \<Rightarrow>
                and_then (if is_type rt e then and_then (class_name rt e) (\<lambda>n. Inr (Txt n))
                          else and_then (class_names rt e) (\<lambda>ns. Inr (Val ns))) (\<lambda>expected.
                  Inr (Some (values(''actual_type'' \<mapsto> Txt (type_name rt a),
                                    ''expected'' \<mapsto> expected))))
            | _ \<Rightarrow> Inl TypeError))
      else Inr (Some values))"

text \<open>The loop \<open>for attr in ('actual', 'expected')\<close>.\<close>

definition repr_slot :: "'v runtime \<Rightarrow> string \<Rightarrow> (string \<rightharpoonup> 'v slot) \<Rightarrow> (string \<rightharpoonup> 'v slot)" where
  "repr_slot rt attr values =
     (case values attr of Some x \<Rightarrow> values(attr \<mapsto> Txt (repr_block rt x)) | None \<Rightarrow> values)"

text \<open>
  \<open>__add_helpful_msg(name, ex, *args, **kwargs)\<close>. \<open>code\<close> is the text that
  \<open>__get_verbose_code_from_frame\<close> made from the file of the test, \<open>node\<close> the result of
  \<open>__get_ast_node_from_frame\<close>. The result is the raised exception, or the new value of
  \<open>ex.helpful_msg\<close> (\<open>None\<close> when the attribute is not set).
\<close>

definition add_helpful_msg ::
    "'v runtime \<Rightarrow> (expr \<Rightarrow> pystr) \<Rightarrow> pystr \<Rightarrow> stmt option \<Rightarrow> string \<Rightarrow> 'v list \<Rightarrow>
     (string \<rightharpoonup> 'v) \<Rightarrow> pyerr + pystr option" where
  "add_helpful_msg rt to_source code node name args kwargs =
     (let msg = code @ [NL]
      in and_then
           (if name \<notin> NO_FUNC_CALL then
              and_then (extract_from_assert_call to_source node (num_args name)) (\<lambda>(call, index).
                Inr ((case call of
                        Some c \<Rightarrow> msg @ ascii ''The function call was: '' @ c @ [NL]
                      | None \<Rightarrow> msg), Some index))
            else Inr (msg, None))
           (\<lambda>(msg, index).
              and_then
                (if num_args name = 1 then
                   and_then (arg_at args 0) (\<lambda>a0. Inr (Some (name, [''actual'' \<mapsto> Val a0])))
                 else
                   and_then (assign_values name index args) (\<lambda>(name, values).
                   and_then (almost_equal_case rt name args kwargs values) (\<lambda>(name, values).
                   and_then (is_case rt name values) (\<lambda>values.
                   and_then (is_instance_case rt name (case index of Some i \<Rightarrow> i | None \<Rightarrow> - 1) values)
                     (\<lambda>r. Inr (case r of None \<Rightarrow> None | Some values \<Rightarrow> Some (name, values)))))))
                (\<lambda>r. case r of
                        None \<Rightarrow> Inr None
                      | Some (name, values) \<Rightarrow>
                          (let values = repr_slot rt ''expected'' (repr_slot rt ''actual'' values)
                           in and_then (case TEMPLATES name of
                                          Some t \<Rightarrow> Inr t | None \<Rightarrow> Inl (KeyError name)) (\<lambda>t.
                              and_then (format_template rt t values) (\<lambda>body.
                                Inr (Some (msg @ body))))))))"

subsection \<open>The wrappers\<close>

text \<open>
  What the wrapped assertion of \<open>unittest\<close> does with the arguments: it returns, raises an
  \<open>AssertionError\<close> (the exception object is \<open>'x\<close>), or raises something else.
\<close>

datatype 'x outcome = Passes | AssertionError 'x | OtherException

text \<open>
  What the wrapper does: it returns, raises again the exception it caught (with the value
  of its attribute \<open>helpful_msg\<close>, if set), lets another exception of the assertion
  through, or raises an exception of its own.
\<close>

datatype 'x wrapped = Returns | Reraises 'x "pystr option" | LetsThrough | RaisesInstead pyerr

definition assert_wrapper ::
    "'v runtime \<Rightarrow> (expr \<Rightarrow> pystr) \<Rightarrow> pystr \<Rightarrow> stmt option \<Rightarrow> string \<Rightarrow> 'x outcome \<Rightarrow>
     'v list \<Rightarrow> (string \<rightharpoonup> 'v) \<Rightarrow> 'x wrapped" where
  "assert_wrapper rt to_source code node name underlying args kwargs =
     (case underlying of
        Passes \<Rightarrow> Returns
      | OtherException \<Rightarrow> LetsThrough
      | AssertionError ex \<Rightarrow>
          (let n = num_args name
           in if kw_is_none rt kwargs ''msg'' \<and> (length args \<le> n \<or> is_none rt (args ! n)) then
                (case add_helpful_msg rt to_source code node name args kwargs of
                   Inl e \<Rightarrow> RaisesInstead e
                 | Inr helpful_msg \<Rightarrow> Reraises ex helpful_msg)
              else Reraises ex None))"

text \<open>
  \<open>wrap_test_case_asserts\<close> wraps the names of \<open>__TEMPLATES\<close> for which \<open>TestCase\<close> has a
  method; \<open>has_method\<close> stands for \<open>hasattr(TestCase, fullname)\<close>.
\<close>

definition wrapped_names :: "(string \<Rightarrow> bool) \<Rightarrow> string list" where
  "wrapped_names has_method = filter (\<lambda>name. has_method (''assert'' @ name)) (map fst TEMPLATE_LIST)"

text \<open>The methods of \<open>unittest.TestCase\<close> among these names (standard library).\<close>

definition unittest_has :: "string \<Rightarrow> bool" where
  "unittest_has fullname \<longleftrightarrow>
     fullname \<in> set [''assertEqual'', ''assertNotEqual'', ''assertGreater'', ''assertGreaterEqual'',
       ''assertLess'', ''assertLessEqual'', ''assertAlmostEqual'', ''assertNotAlmostEqual'',
       ''assertTrue'', ''assertFalse'', ''assertIsNone'', ''assertIsNotNone'', ''assertIs'',
       ''assertIsNot'', ''assertIsInstance'', ''assertNotIsInstance'', ''assertIn'', ''assertNotIn'']"

definition mark_of :: "style \<Rightarrow> nat" where
  "mark_of s = (case s of Bold \<Rightarrow> BOLD_MARK | Underline \<Rightarrow> UNDER_MARK | Strikethrough \<Rightarrow> STRIKE_MARK)"

definition mk_state :: "pystr \<Rightarrow> style option \<Rightarrow> pystr \<Rightarrow> html_state" where
  "mk_state outp act lst =
     \<lparr>html_out = outp, bolding = (act = Some Bold), underlining = (act = Some Underline),
      striking = (act = Some Strikethrough), last_ch = lst\<rparr>"

definition enc_char :: "style \<Rightarrow> nat \<Rightarrow> nat" where
  "enc_char s c = (case s of Bold \<Rightarrow> bold_char c | _ \<Rightarrow> c)"

definition pending :: "style option \<Rightarrow> pystr" where
  "pending act = (case act of None \<Rightarrow> [] | Some s \<Rightarrow> close_tag s)"

definition ready :: "style option \<Rightarrow> pystr \<Rightarrow> segment list \<Rightarrow> bool" where
  "ready act lst segs \<longleftrightarrow>
     (case act of None \<Rightarrow> True
      | Some s \<Rightarrow> (\<exists>x. lst = [x] \<and> \<not> is_marker x) \<and> (case segs of [] \<Rightarrow> True | g # _ \<Rightarrow> \<not> is_styled g))"

definition unpopular :: "'a list \<Rightarrow> 'a \<Rightarrow> bool" where
  "unpopular b x \<longleftrightarrow>
     \<not> (length b \<ge> 200 \<and> length (filter (\<lambda>j. b ! j = x) [0..<length b]) > length b div 100 + 1)"

definition linked :: "'a list \<Rightarrow> nat \<Rightarrow> nat \<Rightarrow> bool" where
  "linked a i j \<longleftrightarrow> i < length a \<and> j < length a \<and> a ! i = a ! j \<and> unpopular a (a ! i)"

fun run_len :: "'a list \<Rightarrow> nat \<Rightarrow> nat \<Rightarrow> nat" where
  "run_len a 0 j = (if linked a 0 j then 1 else 0)"
| "run_len a (Suc i) 0 = (if linked a (Suc i) 0 then 1 else 0)"
| "run_len a (Suc i) (Suc j) = (if linked a (Suc i) (Suc j) then run_len a i j + 1 else 0)"

definition prev_len :: "'a list \<Rightarrow> nat \<Rightarrow> nat \<Rightarrow> nat" where
  "prev_len a i j = (case i of 0 \<Rightarrow> 0 | Suc i' \<Rightarrow> (case j of 0 \<Rightarrow> 0 | Suc j' \<Rightarrow> run_len a i' j'))"

definition row_inv :: "'a list \<Rightarrow> nat \<Rightarrow> nat list \<Rightarrow> (nat \<rightharpoonup> nat) \<times> nat \<times> nat \<times> nat \<Rightarrow> bool" where
  "row_inv a i pre st \<longleftrightarrow>
     (case st of (new, bi, bj, bs) \<Rightarrow>
        (\<forall>j. new j = (if j \<in> set pre then Some (run_len a i j) else None)) \<and> bi = bj \<and>
        (\<forall>d<i. run_len a d d \<le> bs) \<and> (i \<in> set pre \<longrightarrow> run_len a i i \<le> bs))"

text \<open>Notions used to state the properties of a session.\<close>

definition non_overlapping :: "(nat \<times> nat) list \<Rightarrow> bool" where
  "non_overlapping rs \<longleftrightarrow> sorted_wrt (\<lambda>(o1, l1) (o2, l2). o1 + l1 \<le> o2) rs"

definition region :: "pystr \<Rightarrow> nat \<times> nat \<Rightarrow> pystr" where
  "region text r = (case r of (off, len) \<Rightarrow> slice text off (off + len))"

definition session_inv :: "session \<Rightarrow> bool" where
  "session_inv s \<longleftrightarrow>
     pos s \<le> length (inpt s) \<and> sorted (map fst (inpt_ranges s)) \<and> non_overlapping (inpt_ranges s)
     \<and> list_all (\<lambda>(off, len). off + len \<le> length (out s)) (inpt_ranges s)
     \<and> concat (map (region (out s)) (inpt_ranges s)) = take (pos s) (inpt s)"

definition read_then_echo :: "unit prog" where
  "read_then_echo = Readline None (\<lambda>line. Write (ascii ''You entered 5\<newline>'') (Return ()))"

definition two_reads :: "unit prog" where
  "two_reads = Readline None (\<lambda>a. Write (ascii ''> '') (Read (Some 3) (\<lambda>b. Return ())))"


text \<open>
  The statement \<open>self.assertX(args)\<close> of a test, as \<open>__get_ast_node_from_frame\<close> gives
  it when it finds the statement of the line.
\<close>

definition assert_stmt :: "string \<Rightarrow> expr list \<Rightarrow> stmt" where
  "assert_stmt fullname args = Expr (Call (Attribute (Name ''self'') fullname) args)"

lemma tag_not_single: "open_tag s \<noteq> [m]" "close_tag s @ x \<noteq> [m]"
  by (cases s; simp add: b_open_def ins_open_def del_open_def b_close_def ins_close_def del_close_def ascii_def DQ_def)+

lemma escape_char_marker: "is_marker m \<Longrightarrow> escape_char m = [m]"
  by (auto simp: is_marker_def escape_char_def ch_map_def BOLD_MARK_def UNDER_MARK_def STRIKE_MARK_def)

lemma escape_char_not_marker: "\<not> is_marker c \<Longrightarrow> is_marker m \<Longrightarrow> escape_char c \<noteq> [m]"
  by (auto simp: is_marker_def escape_char_def ch_map_def BOLD_MARK_def UNDER_MARK_def STRIKE_MARK_def ascii_def)

lemma bold_char_not_marker: "\<not> is_marker c \<Longrightarrow> \<not> is_marker (bold_char c)"
  by (auto simp: is_marker_def bold_char_def BOLD_MARK_def UNDER_MARK_def STRIKE_MARK_def)

lemma escape_bold_char: "escape_char (bold_char c) = escape_char c"
  by (auto simp: bold_char_def escape_char_def ch_map_def ascii_def)

lemma marks_distinct: "mark_of s = mark_of s' \<longleftrightarrow> s = s'" "is_marker (mark_of s)"
  by (cases s; cases s'; simp add: mark_of_def is_marker_def BOLD_MARK_def UNDER_MARK_def STRIKE_MARK_def)+

lemma step_plain_idle:
  "\<not> is_marker c \<Longrightarrow> html_step (mk_state outp None lst) c = mk_state (outp @ escape_char c) None [c]"
  using escape_char_not_marker[of c]
  by (simp add: html_step_def mk_state_def styling_def is_marker_def)

lemma step_plain_active:
  "\<not> is_marker c \<Longrightarrow> \<not> is_marker x \<Longrightarrow>
   html_step (mk_state outp (Some s) [x]) c = mk_state (outp @ close_tag s @ escape_char c) None [c]"
  using escape_char_not_marker[of c] tag_not_single(2)[of s "escape_char c"]
  by (cases s; auto simp add: html_step_def mk_state_def styling_def is_marker_def)

lemma step_mark_idle:
  "html_step (mk_state outp None lst) (mark_of s) = mk_state (outp @ open_tag s) (Some s) [mark_of s]"
  using tag_not_single(1)[of s]
  by (cases s; simp add: html_step_def mk_state_def styling_def mark_of_def escape_char_marker is_marker_def;
      simp add: BOLD_MARK_def UNDER_MARK_def STRIKE_MARK_def)

lemma step_mark_active:
  "html_step (mk_state outp (Some s) lst) (mark_of s) = mk_state outp (Some s) [mark_of s]"
  by (cases s; simp add: html_step_def mk_state_def styling_def mark_of_def escape_char_marker is_marker_def;
      simp add: BOLD_MARK_def UNDER_MARK_def STRIKE_MARK_def)

lemma step_styled_char:
  "\<not> is_marker c \<Longrightarrow>
   html_step (mk_state outp (Some s) [mark_of s]) c = mk_state (outp @ escape_char c) (Some s) [c]"
  using escape_char_not_marker[of c]
  by (cases s; simp add: html_step_def mk_state_def styling_def mark_of_def is_marker_def)

lemma apply_style_Cons: "apply_style s (c # t) = mark_of s # enc_char s c # apply_style s t"
  by (cases s; simp add: bold_def underline_def strikethrough_def mark_of_def enc_char_def)

lemma apply_style_Nil: "apply_style s [] = []"
  by (cases s; simp add: bold_def underline_def strikethrough_def)

lemma enc_char_props: "\<not> is_marker c \<Longrightarrow> \<not> is_marker (enc_char s c)"
  "escape_char (enc_char s c) = escape_char c"
  by (cases s; simp add: enc_char_def bold_char_not_marker escape_bold_char)+

lemma html_loop_append: "html_loop st (xs @ ys) = html_loop (html_loop st xs) ys"
  by (induction xs arbitrary: st) simp_all

lemma loop_styled_active:
  "list_all (\<lambda>x. \<not> is_marker x) t \<Longrightarrow>
   html_loop (mk_state outp (Some s) lst) (apply_style s t) =
     mk_state (outp @ escape t) (Some s) (if t = [] then lst else [enc_char s (last t)])"
proof (induction t arbitrary: outp lst)
  case Nil
  then show ?case by (simp add: apply_style_Nil escape_def)
next
  case (Cons c t)
  then show ?case
    by (simp add: apply_style_Cons step_mark_active step_styled_char enc_char_props escape_def)
qed

lemma loop_plain_idle:
  "list_all (\<lambda>x. \<not> is_marker x) t \<Longrightarrow>
   html_loop (mk_state outp None lst) t = mk_state (outp @ escape t) None (if t = [] then lst else [last t])"
proof (induction t arbitrary: outp lst)
  case Nil
  then show ?case by (simp add: escape_def)
next
  case (Cons c t)
  then show ?case by (simp add: step_plain_idle escape_def)
qed

lemma loop_segments:
  "well_formed segs \<Longrightarrow> ready act lst segs \<Longrightarrow>
   \<exists>outp' act' lst'. html_loop (mk_state outp act lst) (encode segs) = mk_state outp' act' lst'
       \<and> outp' @ pending act' = outp @ pending act @ concat (map markup_seg segs)"
proof (induction segs arbitrary: outp act lst)
  case Nil
  then show ?case by (auto simp: encode_def)
next
  case (Cons g segs)
  from Cons.prems(1) have wf: "well_formed segs"
    by (cases segs) (auto simp: well_formed_def)
  from Cons.prems(1) have ne: "seg_text g \<noteq> []" and nm: "list_all (\<lambda>x. \<not> is_marker x) (seg_text g)"
    by (auto simp: well_formed_def)
  have enc: "encode (g # segs) = encode_seg g @ encode segs" by (simp add: encode_def)
  show ?case
  proof (cases g)
    case (Plain t)
    with ne nm obtain c t' where t: "t = c # t'" and c: "\<not> is_marker c" and t': "list_all (\<lambda>x. \<not> is_marker x) t'"
      by (cases t) auto
    have "html_loop (mk_state outp act lst) (encode_seg g) =
            mk_state (outp @ pending act @ escape t) None [last t]"
    proof (cases act)
      case None
      with nm Plain t show ?thesis by (simp add: loop_plain_idle pending_def del: html_loop.simps)
    next
      case (Some s)
      with Cons.prems(2) obtain x where "lst = [x]" "\<not> is_marker x" by (auto simp: ready_def)
      with Some Plain t c t' show ?thesis
        by (simp add: step_plain_active loop_plain_idle pending_def escape_def)
    qed
    moreover have "ready None [last t] segs" by (simp add: ready_def)
    ultimately obtain outp' act' lst' where
      "html_loop (mk_state outp act lst) (encode_seg g @ encode segs) = mk_state outp' act' lst'"
      "outp' @ pending act' = (outp @ pending act @ escape t) @ pending None @ concat (map markup_seg segs)"
      using Cons.IH[OF wf, of None "[last t]" "outp @ pending act @ escape t"]
      unfolding html_loop_append by metis
    then show ?thesis
      unfolding enc using Plain by (intro exI[of _ outp'] exI[of _ act'] exI[of _ lst']) (simp add: pending_def)
  next
    case (Styled s t)
    with ne nm obtain c t' where t: "t = c # t'" and c: "\<not> is_marker c" and t': "list_all (\<lambda>x. \<not> is_marker x) t'"
      by (cases t) auto
    from Cons.prems(2) Styled have act: "act = None" by (cases act) (auto simp: ready_def)
    have "html_loop (mk_state outp act lst) (encode_seg g) =
            mk_state (outp @ open_tag s @ escape t) (Some s) [enc_char s (last t)]"
      using Styled t c t' act
      by (simp add: apply_style_Cons step_mark_idle step_styled_char loop_styled_active escape_def enc_char_props)
    moreover have "ready (Some s) [enc_char s (last t)] segs"
      using Cons.prems(1) Styled nm ne
      by (cases segs) (auto simp: ready_def well_formed_def enc_char_props list_all_iff)
    ultimately obtain outp' act' lst' where
      "html_loop (mk_state outp act lst) (encode_seg g @ encode segs) = mk_state outp' act' lst'"
      "outp' @ pending act' = (outp @ open_tag s @ escape t) @ pending (Some s) @ concat (map markup_seg segs)"
      using Cons.IH[OF wf, of "Some s" "[enc_char s (last t)]" "outp @ open_tag s @ escape t"]
      unfolding html_loop_append by metis
    then show ?thesis
      unfolding enc using Styled act by (intro exI[of _ outp'] exI[of _ act'] exI[of _ lst']) (simp add: pending_def)
  qed
qed

lemma finish_state:
  "(let st = mk_state outp act lst;
        outp = html_out st;
        outp = (if bolding st then outp @ b_close else outp);
        outp = (if underlining st then outp @ ins_close else outp);
        outp = (if striking st then outp @ del_close else outp)
    in outp @ sfx) = outp @ pending act @ sfx"
  by (cases act; simp add: mk_state_def pending_def Let_def; rename_tac s; case_tac s; simp)

text \<open>
  Claim C1 (round trip of the style marker codec). Take a plain text without the three
  marker characters, cut into non-empty runs, some of them carrying a style, no two
  styled runs next to each other (\<open>well_formed\<close>). Encoding the styled runs with
  \<open>__bold\<close>, \<open>__underline\<close> and \<open>__strikethrough\<close> and decoding with
  \<open>__convert_to_html\<close> gives the escaped text of every run in order (\<open>escape\<close>: the
  fixed map of newline, angle brackets, ampersand and quotes, and the bold code points
  back to ASCII), each styled run between the opening and the closing tag of its style,
  the whole inside \<open><pre>\<close> and \<open></pre>\<close>.
\<close>

theorem codec_roundtrip: "well_formed segs \<Longrightarrow> convert_to_html (encode segs) = markup segs"
proof -
  assume wf: "well_formed segs"
  have init: "\<lparr>html_out = ascii ''<pre>'', bolding = False, underlining = False,
                striking = False, last_ch = []\<rparr> = mk_state (ascii ''<pre>'') None []"
    by (simp add: mk_state_def)
  have "ready None [] segs" by (simp add: ready_def)
  from loop_segments[OF wf this, of "ascii ''<pre>''"]
  obtain outp' act' lst' where
    l: "html_loop (mk_state (ascii ''<pre>'') None []) (encode segs) = mk_state outp' act' lst'"
    and o: "outp' @ pending act' = ascii ''<pre>'' @ concat (map markup_seg segs)"
    by (auto simp: pending_def)
  have "convert_to_html (encode segs) = outp' @ pending act' @ ascii ''</pre>''"
    unfolding convert_to_html_def init l by (rule finish_state)
  also have "\<dots> = markup segs" using o by (simp add: markup_def)
  finally show ?thesis .
qed

theorem codec_roundtrip_witness:
  "well_formed [Plain (ascii ''a<b''), Styled Bold (ascii ''Hi5''), Plain (ascii '' ''),
                Styled Underline (ascii ''x''), Plain [10], Styled Strikethrough (ascii ''y&'')]
   \<and> convert_to_html (encode [Plain (ascii ''a<b''), Styled Bold (ascii ''Hi5''), Plain (ascii '' ''),
                Styled Underline (ascii ''x''), Plain [10], Styled Strikethrough (ascii ''y&'')])
     = markup [Plain (ascii ''a<b''), Styled Bold (ascii ''Hi5''), Plain (ascii '' ''),
                Styled Underline (ascii ''x''), Plain [10], Styled Strikethrough (ascii ''y&'')]"
proof -
  have wf: "well_formed [Plain (ascii ''a<b''), Styled Bold (ascii ''Hi5''), Plain (ascii '' ''),
                Styled Underline (ascii ''x''), Plain [10], Styled Strikethrough (ascii ''y&'')]"
    by (simp add: well_formed_def is_marker_def BOLD_MARK_def UNDER_MARK_def STRIKE_MARK_def ascii_def)
  from codec_roundtrip[OF wf] wf show ?thesis by simp
qed

lemma run_len_prev: "run_len a i j = (if linked a i j then prev_len a i j + 1 else 0)"
  by (cases i; cases j; simp add: prev_len_def)

lemma chain_b_set: "j \<in> set (chain_b a (a ! i)) \<longleftrightarrow> j < length a \<and> a ! j = a ! i \<and> unpopular a (a ! i)"
  by (auto simp: chain_b_def unpopular_def Let_def)

lemma chain_b_linked: "i < length a \<Longrightarrow> j \<in> set (chain_b a (a ! i)) \<longleftrightarrow> linked a i j"
  by (auto simp: chain_b_set linked_def)

lemma chain_b_sorted: "sorted_wrt (<) (chain_b b x)"
  by (simp add: chain_b_def Let_def sorted_wrt_filter strict_sorted_iff[symmetric] del: strict_sorted_iff)

lemma linked_sym: "linked a i j \<Longrightarrow> linked a j i"
  by (auto simp: linked_def)

lemma linked_refl: "linked a i j \<Longrightarrow> linked a i i \<and> linked a j j"
  by (auto simp: linked_def)

lemma run_len_diag: "run_len a i j \<le> run_len a i i \<and> run_len a i j \<le> run_len a j j"
proof (induction a i j rule: run_len.induct)
  case (1 a j)
  then show ?case using linked_refl[of a 0 j] by (cases j) auto
next
  case (2 a i)
  then show ?case using linked_refl[of a "Suc i" 0] by auto
next
  case (3 a i j)
  then show ?case using linked_refl[of a "Suc i" "Suc j"] by auto
qed

lemma flm_row_diag:
  assumes i: "i < length a"
    and prev: "\<forall>j. j2lenget j2len j = prev_len a i j"
  shows "pre @ js = chain_b a (a ! i) \<Longrightarrow> row_inv a i pre st \<Longrightarrow>
         row_inv a i (chain_b a (a ! i)) (flm_row 0 (length a) i j2len js st)"
proof (induction js arbitrary: pre st)
  case Nil
  then show ?case by simp
next
  case (Cons j js)
  obtain new bi bj bs where st: "st = (new, bi, bj, bs)" by (cases st)
  have jin: "j \<in> set (chain_b a (a ! i))" using Cons.prems(1)[symmetric] by simp
  then have lk: "linked a i j" using chain_b_linked[OF i] by simp
  then have jn: "j < length a" by (simp add: linked_def)
  let ?k = "j2lenget j2len j + 1"
  have k: "?k = run_len a i j" using prev lk by (simp add: run_len_prev)
  have pre': "(pre @ [j]) @ js = chain_b a (a ! i)" using Cons.prems(1) by simp
  from Cons.prems(2) st have
    new: "\<forall>j. new j = (if j \<in> set pre then Some (run_len a i j) else None)" and
    bb: "bi = bj" and dg: "\<forall>d<i. run_len a d d \<le> bs" and ii: "i \<in> set pre \<longrightarrow> run_len a i i \<le> bs"
    by (auto simp: row_inv_def)
  have new': "\<forall>j'. (new(j \<mapsto> ?k)) j' = (if j' \<in> set (pre @ [j]) then Some (run_len a i j') else None)"
    using new k by auto
  show ?case
  proof (cases "?k > bs")
    case True
    have ij: "i = j"
    proof (rule ccontr)
      assume ne: "i \<noteq> j"
      show False
      proof (cases "j < i")
        case True
        with dg have "run_len a j j \<le> bs" by simp
        with run_len_diag[of a i j] k \<open>?k > bs\<close> show False by simp
      next
        case False
        with ne have lt: "i < j" by simp
        have "i \<in> set (chain_b a (a ! i))" using chain_b_linked[OF i, of i] linked_refl[OF lk] by simp
        then have "i \<in> set pre \<or> i \<in> set js" using Cons.prems(1)[symmetric] ne by auto
        moreover have "sorted_wrt (<) (pre @ j # js)" using chain_b_sorted[of a "a ! i"] Cons.prems(1) by simp
        then have "\<forall>x\<in>set js. j < x" by (simp add: sorted_wrt_append)
        ultimately have "i \<in> set pre" using lt by auto
        with ii have "run_len a i i \<le> bs" by simp
        with run_len_diag[of a i j] k \<open>?k > bs\<close> show False by simp
      qed
    qed
    have "\<forall>d<i. run_len a d d \<le> ?k" using dg True by (meson less_imp_le order_trans)
    moreover have "run_len a i i \<le> ?k" using k ij by simp
    ultimately have "row_inv a i (pre @ [j]) (new(j \<mapsto> ?k), Suc i - ?k, Suc j - ?k, ?k)"
      unfolding row_inv_def prod.case using new' ij by blast
    from Cons.IH[OF pre' this] show ?thesis using st True jn by (simp add: Let_def)
  next
    case False
    have "i \<in> set (pre @ [j]) \<longrightarrow> run_len a i i \<le> bs" using ii False k by auto
    then have "row_inv a i (pre @ [j]) (new(j \<mapsto> ?k), bi, bj, bs)"
      unfolding row_inv_def prod.case using new' bb dg by blast
    from Cons.IH[OF pre' this] show ?thesis using st False jn by (simp add: Let_def)
  qed
qed

lemma flm_rows_diag:
  "m = length a - i \<Longrightarrow> \<forall>j. j2lenget j2len j = prev_len a i j \<Longrightarrow>
   \<forall>d<i. run_len a d d \<le> bs \<Longrightarrow>
   \<exists>s t. flm_rows a (chain_b a) 0 (length a) [i..<length a] (j2len, bi, bi, bs) = (s, s, t)"
proof (induction m arbitrary: i j2len bi bs)
  case 0
  then show ?case by simp
next
  case (Suc m)
  then have lt: "i < length a" by simp
  then have upt: "[i..<length a] = i # [Suc i..<length a]" by (simp add: upt_conv_Cons)
  let ?full = "chain_b a (a ! i)"
  obtain new' bi' bj' bs' where
    r: "flm_row 0 (length a) i j2len ?full (Map.empty, bi, bi, bs) = (new', bi', bj', bs')"
    using prod_cases4 by blast
  have "row_inv a i [] (Map.empty, bi, bi, bs)" using Suc.prems(3) by (simp add: row_inv_def)
  from flm_row_diag[OF lt Suc.prems(2) _ this, of ?full] r
  have inv: "row_inv a i ?full (new', bi', bj', bs')" by simp
  then have new': "\<forall>j. new' j = (if j \<in> set ?full then Some (run_len a i j) else None)"
    and bb: "bi' = bj'" and dg: "\<forall>d<i. run_len a d d \<le> bs'"
    and ii: "i \<in> set ?full \<longrightarrow> run_len a i i \<le> bs'"
    by (auto simp: row_inv_def)
  have prev': "\<forall>j. j2lenget new' j = prev_len a (Suc i) j"
  proof
    fix j
    show "j2lenget new' j = prev_len a (Suc i) j"
    proof (cases j)
      case 0
      then show ?thesis by (simp add: j2lenget_def prev_len_def)
    next
      case (Suc j')
      have "run_len a i j' = 0" if "j' \<notin> set ?full"
        using that chain_b_linked[OF lt, of j'] by (simp add: run_len_prev)
      then show ?thesis using Suc new' by (simp add: j2lenget_def prev_len_def)
    qed
  qed
  have "run_len a i i \<le> bs'"
  proof (cases "i \<in> set ?full")
    case True
    with ii show ?thesis by simp
  next
    case False
    then have "run_len a i i = 0" using chain_b_linked[OF lt, of i] by (simp add: run_len_prev)
    then show ?thesis by simp
  qed
  with dg have dg': "\<forall>d<Suc i. run_len a d d \<le> bs'" by (auto simp: less_Suc_eq)
  have "\<exists>s t. flm_rows a (chain_b a) 0 (length a) [Suc i..<length a] (new', bi', bi', bs') = (s, s, t)"
    using Suc.IH[of "Suc i" new' bs' bi'] Suc.prems(1) prev' dg' by simp
  then show ?case using r bb by (simp add: upt)
qed

lemma extend_down_same:
  "bi \<le> length a \<Longrightarrow> extend_down a a 0 0 (bi, bi, bs) = (0, 0, bs + bi)"
proof (induction bi arbitrary: bs)
  case 0
  then show ?case by (simp add: extend_down.simps)
next
  case (Suc bi)
  then show ?case by (subst extend_down.simps) simp
qed

lemma extend_up_same:
  "m = length a - s \<Longrightarrow> s \<le> length a \<Longrightarrow>
   extend_up a a (length a) (length a) (0, 0, s) = (0, 0, length a)"
proof (induction m arbitrary: s)
  case 0
  then show ?case by (simp add: extend_up.simps)
next
  case (Suc m)
  then show ?case by (subst extend_up.simps) simp
qed

lemma find_longest_match_same:
  "find_longest_match a a 0 (length a) 0 (length a) = (0, 0, length a)"
proof -
  let ?n = "length a"
  let ?r = "flm_rows a (chain_b a) 0 ?n [0..<?n] (Map.empty, 0, 0, 0)"
  have p: "\<forall>j. j2lenget Map.empty j = prev_len a 0 j"
    by (simp add: j2lenget_def prev_len_def split: nat.splits)
  from flm_rows_diag[of ?n a 0 Map.empty 0 0] p
  obtain s t where r: "?r = (s, s, t)" by auto
  have "best_ok 0 0 ?n ?n ?r"
    using flm_rows_inv[of ?n ?n 0 0 0 Map.empty ?n "(0, 0, 0)" a "chain_b a"]
    by (simp add: best_ok_def dict_ok_def)
  with r have le: "s + t \<le> ?n" by (simp add: best_ok_def)
  then have "extend_down a a 0 0 ?r = (0, 0, t + s)" using r extend_down_same[of s a t] by simp
  moreover have "extend_up a a ?n ?n (0, 0, t + s) = (0, 0, ?n)"
    using extend_up_same[of "?n - (t + s)" a "t + s"] le by simp
  ultimately show ?thesis by (simp add: find_longest_match_def)
qed

lemma get_matching_blocks_same:
  "get_matching_blocks a a =
     (if a = [] then [(0, 0, 0)] else [(0, 0, length a), (length a, length a, 0)])"
  by (simp add: get_matching_blocks_def find_longest_match_same Let_def)

lemma get_opcodes_same:
  "get_opcodes a a = (if a = [] then [] else [(Equal, 0, length a, 0, length a)])"
  by (simp add: get_opcodes_def get_matching_blocks_same Let_def)

lemma ratio_same: "ratio a a = 1"
  by (simp add: ratio_def get_matching_blocks_same calculate_ratio_def)

text \<open>
  Claim C5 (diffing a string against itself). For every string \<open>a\<close> and every threshold
  below 1, \<open>__diff_line(a, a, limit)\<close> returns \<open>a\<close> itself: the result is not the
  sentinel and holds no strikethrough or underline marker that \<open>a\<close> does not hold.
\<close>

theorem diff_line_same: "limit < 1 \<Longrightarrow> diff_line a a limit = Some a"
  by (simp add: diff_line_def ratio_same get_opcodes_same slice_def)

theorem diff_line_same_witness:
  "(1/2 :: real) < 1 \<and> diff_line (ascii ''cat'') (ascii ''cat'') (1/2) = Some (ascii ''cat'')"
  using diff_line_same[of "1/2" "ascii ''cat''"] by simp

text \<open>
  Claim C4 (the sentinel of \<open>__diff_line\<close>). The result is the sentinel \<open>None\<close> exactly
  when the threshold is positive and the similarity ratio is at most the threshold; with
  the threshold 0 the result is never the sentinel.
\<close>

theorem diff_line_sentinel:
  "(diff_line a b limit = None \<longleftrightarrow> 0 < limit \<and> ratio a b \<le> limit) \<and> diff_line a b 0 \<noteq> None"
  by (simp add: diff_line_def)

lemma ratio_abc_xyz: "ratio (ascii ''abc'') (ascii ''xyz'') = 0"
  by code_simp

lemma ratio_cat_cats: "ratio (ascii ''cat'') (ascii ''cats'') = 6 / 7"
  by code_simp

theorem diff_line_sentinel_witness:
  "diff_line (ascii ''abc'') (ascii ''xyz'') (1/2) = None
   \<and> diff_line (ascii ''cat'') (ascii ''cats'') (1/2) \<noteq> None
   \<and> diff_line (ascii ''abc'') (ascii ''xyz'') 0 \<noteq> None"
  using diff_line_sentinel[of "ascii ''abc''" "ascii ''xyz''" "1/2"]
        diff_line_sentinel[of "ascii ''cat''" "ascii ''cats''" "1/2"]
  by (simp add: ratio_abc_xyz ratio_cat_cats)

section \<open>Properties of the string methods\<close>

lemma split_nl_not_Nil: "split_nl s \<noteq> []"
  by (induction s) (auto split: list.splits)

lemma split_nl_no_nl: "l \<in> set (split_nl s) \<Longrightarrow> NL \<notin> set l"
  by (induction s arbitrary: l) (auto split: if_splits list.splits)

lemma split_nl_plain: "NL \<notin> set l \<Longrightarrow> split_nl l = [l]"
  by (induction l) auto

lemma split_nl_append: "NL \<notin> set l \<Longrightarrow> split_nl (l @ NL # s) = l # split_nl s"
  by (induction l) (auto simp: split_nl_not_Nil split: list.splits)




section \<open>Properties of the captured I/O session\<close>

lemma take_is_prefix: "\<exists>sfx. xs = take n xs @ sfx"
  by (metis append_take_drop_id)

lemma stringio_read_prefix:
  "stringio_read itext p n = (data, p') \<Longrightarrow> p' = p + length data \<and> (\<exists>sfx. drop p itext = data @ sfx)"
  using take_is_prefix[of "drop p itext"]
  by (auto simp: stringio_read_def Let_def split: option.splits if_splits)

lemma stringio_readline_prefix:
  "stringio_readline itext p n = (data, p') \<Longrightarrow> p' = p + length data \<and> (\<exists>sfx. drop p itext = data @ sfx)"
proof -
  assume a: "stringio_readline itext p n = (data, p')"
  let ?rest = "drop p itext"
  let ?line = "(case dropWhile (\<lambda>c. c \<noteq> NL) ?rest of [] \<Rightarrow> ?rest
                | _ # _ \<Rightarrow> takeWhile (\<lambda>c. c \<noteq> NL) ?rest @ [NL])"
  have "\<exists>sfx. ?rest = ?line @ sfx"
  proof (cases "dropWhile (\<lambda>c. c \<noteq> NL) ?rest")
    case Nil
    then show ?thesis by (intro exI[of _ "[]"]) (simp del: dropWhile_eq_Nil_conv)
  next
    case (Cons c cs)
    then have "c = NL" using hd_dropWhile[of "\<lambda>c. c \<noteq> NL" ?rest] by force
    with Cons have "?rest = (takeWhile (\<lambda>c. c \<noteq> NL) ?rest @ [NL]) @ cs"
      using takeWhile_dropWhile_id[of "\<lambda>c. c \<noteq> NL" ?rest] by simp
    with Cons show ?thesis by (metis list.simps(5))
  qed
  then obtain sfx where l: "?rest = ?line @ sfx" by blast
  have "\<exists>sfx'. ?line = data @ sfx'"
    using a take_is_prefix[of ?line]
    by (cases n) (auto simp: stringio_readline_def Let_def split: if_splits)
  with l have "\<exists>sfx. ?rest = data @ sfx" by (metis append.assoc)
  moreover have "p' = p + length data" using a by (auto simp: stringio_readline_def Let_def)
  ultimately show ?thesis by simp
qed

lemma region_append: "fst r + snd r \<le> length xs \<Longrightarrow> region (xs @ ys) r = region xs r"
  by (cases r) (simp add: region_def slice_def)

lemma regions_append:
  "list_all (\<lambda>(off, len). off + len \<le> length xs) rs \<Longrightarrow> map (region (xs @ ys)) rs = map (region xs) rs"
  by (induction rs) (auto simp: region_append)

lemma session_inv_write: "session_inv s \<Longrightarrow> session_inv (s\<lparr>out := out s @ data\<rparr>)"
  unfolding session_inv_def by (auto simp: regions_append list_all_iff)

lemma session_inv_record:
  assumes inv: "session_inv s" and pre: "drop (pos s) (inpt s) = data @ sfx"
  shows "session_inv (s\<lparr>pos := pos s + length data,
                        inpt_ranges := inpt_ranges s @ [(length (out s), length data)],
                        out := out s @ data\<rparr>)"
proof -
  from inv have p: "pos s \<le> length (inpt s)" and so: "sorted (map fst (inpt_ranges s))"
    and no: "non_overlapping (inpt_ranges s)"
    and wi: "list_all (\<lambda>(off, len). off + len \<le> length (out s)) (inpt_ranges s)"
    and co: "concat (map (region (out s)) (inpt_ranges s)) = take (pos s) (inpt s)"
    by (auto simp: session_inv_def)
  have len: "length (inpt s) = pos s + length data + length sfx"
    using pre p by (metis add.assoc add_diff_cancel_left' le_add_diff_inverse length_append length_drop)
  have tk: "take (pos s + length data) (inpt s) = take (pos s) (inpt s) @ data"
    using pre by (metis append_eq_conv_conj take_add)
  have le: "\<forall>r\<in>set (inpt_ranges s). fst r \<le> length (out s) \<and> fst r + snd r \<le> length (out s)"
    using wi by (auto simp: list_all_iff)
  have "sorted (map fst (inpt_ranges s @ [(length (out s), length data)]))"
    using so le by (auto simp: sorted_append)
  moreover have "non_overlapping (inpt_ranges s @ [(length (out s), length data)])"
    using no le by (auto simp: non_overlapping_def sorted_wrt_append)
  moreover have "region (out s @ data) (length (out s), length data) = data"
    by (simp add: region_def slice_def)
  ultimately show ?thesis
    unfolding session_inv_def using len tk co wi
    by (auto simp: regions_append list_all_iff)
qed

lemma session_inv_read: "session_inv s \<Longrightarrow> instr_read n s = (data, s') \<Longrightarrow> session_inv s'"
  using stringio_read_prefix[of "inpt s" "pos s" n] session_inv_record[of s data]
  by (auto simp: instr_read_def split: prod.splits)

lemma session_inv_readline: "session_inv s \<Longrightarrow> instr_readline n s = (data, s') \<Longrightarrow> session_inv s'"
  using stringio_readline_prefix[of "inpt s" "pos s" n] session_inv_record[of s data]
  by (auto simp: instr_readline_def split: prod.splits)

lemma inpt_read: "instr_read n s = (data, s') \<Longrightarrow> inpt s' = inpt s"
  by (auto simp: instr_read_def split: prod.splits)

lemma inpt_readline: "instr_readline n s = (data, s') \<Longrightarrow> inpt s' = inpt s"
  by (auto simp: instr_readline_def split: prod.splits)

lemma run_inv: "session_inv s \<Longrightarrow> run func s = (res, s') \<Longrightarrow> session_inv s' \<and> inpt s' = inpt s"
proof (induction func arbitrary: s)
  case (Return x)
  then show ?case by simp
next
  case (Write d k)
  from Write.IH[OF session_inv_write[OF Write.prems(1), of d]] Write.prems(2) show ?case by simp
next
  case (Read n k)
  obtain data s1 where r: "instr_read n s = (data, s1)" by (cases "instr_read n s")
  from Read.IH[of "k data" s1] session_inv_read[OF Read.prems(1) r] inpt_read[OF r] Read.prems(2) r
  show ?case by simp
next
  case (Readline n k)
  obtain data s1 where r: "instr_readline n s = (data, s1)" by (cases "instr_readline n s")
  from Readline.IH[of "k data" s1] session_inv_readline[OF Readline.prems(1) r] inpt_readline[OF r]
    Readline.prems(2) r
  show ?case by simp
next
  case (Raise e)
  then show ?case by simp
qed

lemma new_session_inv: "session_inv (new_session itext)"
  by (simp add: session_inv_def new_session_def non_overlapping_def)

lemma run_from_new_session:
  "run func (new_session itext) = (res, s) \<Longrightarrow> session_inv s \<and> inpt s = itext"
  using run_inv[OF new_session_inv, of func itext res s] by (simp add: new_session_def)

lemma leftover_read:
  "pos s \<le> length (inpt s) \<Longrightarrow>
   instr_read None s =
     (drop (pos s) (inpt s),
      s\<lparr>pos := length (inpt s),
        inpt_ranges := inpt_ranges s @ [(length (out s), length (inpt s) - pos s)],
        out := out s @ drop (pos s) (inpt s)\<rparr>)"
  by (simp add: instr_read_def stringio_read_def)



lemma check_input_pass:
  assumes "run func (new_session itext) = (Inr v, s)" and "0 < pos s" and "pos s = length itext"
  shows "check_input call func itext =
           Inr (intro_msg call itext, v, rstrip (out s), inpt_ranges s @ [(length (out s), 0)])"
proof -
  from run_from_new_session[OF assms(1)] have le: "pos s \<le> length (inpt s)" and inp: "inpt s = itext"
    by (auto simp: session_inv_def)
  have "instr_read None s =
      ([], s\<lparr>pos := length itext, inpt_ranges := inpt_ranges s @ [(length (out s), 0)],
               out := out s @ []\<rparr>)"
    using leftover_read[OF le] inp assms(3) by simp
  moreover from assms(2) have "pos s \<noteq> 0" by linarith
  ultimately show ?thesis
    using assms(1) unfolding check_input_def Let_def by simp
qed





lemma instr_read_records:
  "instr_read n s0 = (data, s') \<Longrightarrow>
   inpt_ranges s' = inpt_ranges s0 @ [(length (out s0), length data)] \<and> out s' = out s0 @ data"
  by (auto simp: instr_read_def split: prod.splits)

lemma instr_readline_records:
  "instr_readline n s0 = (data, s') \<Longrightarrow>
   inpt_ranges s' = inpt_ranges s0 @ [(length (out s0), length data)] \<and> out s' = out s0 @ data"
  by (auto simp: instr_readline_def split: prod.splits)

lemma ranges_with_final:
  assumes "session_inv s"
  shows "sorted (map fst (inpt_ranges s @ [(length (out s), 0)]))
       \<and> non_overlapping (inpt_ranges s @ [(length (out s), 0)])"
proof -
  from assms have "\<forall>r\<in>set (inpt_ranges s). fst r \<le> length (out s) \<and> fst r + snd r \<le> length (out s)"
    by (auto simp: session_inv_def list_all_iff)
  with assms show ?thesis
    by (auto simp: session_inv_def sorted_append non_overlapping_def sorted_wrt_append)
qed

text \<open>
  Claim C3 (invariant of the input ranges). For every function under test and every input
  itext, the list of input ranges when the function has run is sorted by offset and its
  ranges do not overlap (each ends before the next begins); so is the list that
  \<open>__check_input\<close> returns. Every call of the wrapped \<open>read\<close> or \<open>readline\<close> appends
  one range, made of the length of the output so far and of the length of the data it
  returns, and echoes that data; the recorded regions of the output are, in order, exactly
  the input consumed.
\<close>

theorem input_ranges_invariant:
  fixes func :: "'r prog"
  shows
    "(case run func (new_session itext) of
        (res, s) \<Rightarrow>
          sorted (map fst (inpt_ranges s)) \<and> non_overlapping (inpt_ranges s)
          \<and> concat (map (region (out s)) (inpt_ranges s)) = take (pos s) itext)
   \<and> (case check_input call func itext of
         Inl f \<Rightarrow> True
       | Inr (msg, retval, printed, ranges) \<Rightarrow> sorted (map fst ranges) \<and> non_overlapping ranges)
   \<and> (case instr_read n s0 of
         (data, s') \<Rightarrow> inpt_ranges s' = inpt_ranges s0 @ [(length (out s0), length data)]
                        \<and> out s' = out s0 @ data)
   \<and> (case instr_readline n s0 of
         (data, s') \<Rightarrow> inpt_ranges s' = inpt_ranges s0 @ [(length (out s0), length data)]
                        \<and> out s' = out s0 @ data)"
proof -
  obtain res s where r: "run func (new_session itext) = (res, s)"
    by (cases "run func (new_session itext)")
  from run_from_new_session[OF r] have inv: "session_inv s" and inp: "inpt s = itext" by auto
  have p1: "case run func (new_session itext) of
        (res, s) \<Rightarrow>
          sorted (map fst (inpt_ranges s)) \<and> non_overlapping (inpt_ranges s)
          \<and> concat (map (region (out s)) (inpt_ranges s)) = take (pos s) itext"
    using inv inp r by (simp add: session_inv_def)
  have p2: "case check_input call func itext of
         Inl f \<Rightarrow> True
       | Inr (msg, retval, printed, ranges) \<Rightarrow> sorted (map fst ranges) \<and> non_overlapping ranges"
  proof (cases "check_input call func itext")
    case (Inl f)
    then show ?thesis by simp
  next
    case (Inr t)
    obtain msg retval printed ranges where t: "t = (msg, retval, printed, ranges)"
      by (cases t) auto
    from inv inp have le: "pos s \<le> length (inpt s)" by (simp add: session_inv_def)
    have "ranges = inpt_ranges s @ [(length (out s), 0)]"
      using Inr t r leftover_read[OF le] inp
      by (auto simp: check_input_def Let_def split: sum.splits exn.splits if_splits)
    with ranges_with_final[OF inv] Inr t show ?thesis by simp
  qed
  have p3: "case instr_read n s0 of
         (data, s') \<Rightarrow> inpt_ranges s' = inpt_ranges s0 @ [(length (out s0), length data)]
                        \<and> out s' = out s0 @ data"
    using instr_read_records[of n s0] by (cases "instr_read n s0") simp
  have p4: "case instr_readline n s0 of
         (data, s') \<Rightarrow> inpt_ranges s' = inpt_ranges s0 @ [(length (out s0), length data)]
                        \<and> out s' = out s0 @ data"
    using instr_readline_records[of n s0] by (cases "instr_readline n s0") simp
  from p1 p2 p3 p4 show ?thesis by blast
qed

lemma two_reads_run:
  "run two_reads (new_session (ascii ''ab\<newline>cdef'')) =
     (Inr (), \<lparr>out = ascii ''ab\<newline>> cde'', inpt = ascii ''ab\<newline>cdef'', pos = 6,
               inpt_ranges = [(0, 3), (5, 3)]\<rparr>)"
  by (simp add: two_reads_def new_session_def instr_readline_def stringio_readline_def
      instr_read_def stringio_read_def ascii_def NL_def)

theorem input_ranges_invariant_witness:
  "inpt_ranges (snd (run two_reads (new_session (ascii ''ab\<newline>cdef'')))) = [(0, 3), (5, 3)]
   \<and> sorted (map fst (inpt_ranges (snd (run two_reads (new_session (ascii ''ab\<newline>cdef''))))))
   \<and> non_overlapping (inpt_ranges (snd (run two_reads (new_session (ascii ''ab\<newline>cdef'')))))"
  using input_ranges_invariant[where func = two_reads and itext = "ascii ''ab\<newline>cdef''"
      and call = "[]" and n = None and ?s0.0 = "new_session []"]
  by (simp add: two_reads_run)

lemma read_then_echo_run:
  "run read_then_echo (new_session (ascii ''5\<newline>'')) =
     (Inr (), \<lparr>out = ascii ''5\<newline>You entered 5\<newline>'', inpt = ascii ''5\<newline>'', pos = 2,
               inpt_ranges = [(0, 2)]\<rparr>)"
  by (simp add: read_then_echo_def new_session_def instr_readline_def stringio_readline_def
      ascii_def NL_def)

lemma rstrip_echo: "rstrip (ascii ''5\<newline>You entered 5\<newline>'') = ascii ''5\<newline>You entered 5''"
  by (simp add: rstrip_def is_space_def ascii_def)

lemma read_then_echo_check:
  "check_input call read_then_echo (ascii ''5\<newline>'') =
     Inr (intro_msg call (ascii ''5\<newline>''), (), ascii ''5\<newline>You entered 5'', [(0, 2), (16, 0)])"
  using check_input_pass[OF read_then_echo_run, where call = call]
  by (simp add: rstrip_echo) (simp add: ascii_def)

text \<open>
  Claim C2, as amended (the scenario of one \<open>readline\<close> and one write). The function
  reads once with \<open>readline\<close>, receives \<open>5\n\<close>, and writes \<open>You entered 5\n\<close>. When it
  has returned, the output sink holds \<open>5\nYou entered 5\n\<close> and the one range recorded is
  \<open>(0, 2)\<close>. The input checks pass, and the output itext that \<open>__check_input\<close> returns is
  that itext with its trailing whitespace stripped, \<open>5\nYou entered 5\<close>.
\<close>

theorem session_scenario:
  "run read_then_echo (new_session (ascii ''5\<newline>'')) =
     (Inr (), \<lparr>out = ascii ''5\<newline>You entered 5\<newline>'', inpt = ascii ''5\<newline>'', pos = 2,
               inpt_ranges = [(0, 2)]\<rparr>)
   \<and> fst (snd (snd (projr (check_input call read_then_echo (ascii ''5\<newline>''))))) =
       ascii ''5\<newline>You entered 5''
   \<and> isl (check_input call read_then_echo (ascii ''5\<newline>'')) = False"
  by (simp add: read_then_echo_run read_then_echo_check)

text \<open>
  The claim as it was stated fails on what \<open>__check_input\<close> returns: the output itext has
  lost its final newline, and the list of ranges has a second entry, recorded by the
  \<open>in_.read()\<close> of the check for leftover input, which goes through the wrapper too.
\<close>

theorem session_scenario_counterexample:
  "snd (snd (projr (check_input (ascii ''f()'') read_then_echo (ascii ''5\<newline>'')))) =
     (ascii ''5\<newline>You entered 5'', [(0, 2), (16, 0)])
   \<and> snd (snd (projr (check_input (ascii ''f()'') read_then_echo (ascii ''5\<newline>'')))) \<noteq>
     (ascii ''5\<newline>You entered 5\<newline>'', [(0, 2)])"
  by (simp add: read_then_echo_check)

section \<open>Properties of the output comparator\<close>

lemma split_join_sep:
  "sep = [NL] \<Longrightarrow> ls \<noteq> [] \<Longrightarrow> \<forall>l\<in>set ls. NL \<notin> set l \<Longrightarrow> split_nl (join sep ls) = ls"
proof (induction sep ls rule: join.induct)
  case (1 sep)
  then show ?case by simp
next
  case (2 sep x)
  then show ?case by (simp add: split_nl_plain)
next
  case (3 sep x y ys)
  then show ?case by (simp add: split_nl_append)
qed

lemma split_join: "ls \<noteq> [] \<Longrightarrow> \<forall>l\<in>set ls. NL \<notin> set l \<Longrightarrow> split_nl (join [NL] ls) = ls"
  by (rule split_join_sep) simp_all

lemma set_rstrip: "set (rstrip l) \<subseteq> set l"
  unfolding rstrip_def using set_dropWhileD[of _ is_space "rev l"] by auto

lemma relaxed_lines:
  "split_nl (ws_normalize Relaxed s) = map rstrip (split_nl (rstrip_nl s))"
proof -
  have "\<forall>l\<in>set (map rstrip (split_nl (rstrip_nl s))). NL \<notin> set l"
    using split_nl_no_nl set_rstrip by fastforce
  then show ?thesis
    by (simp add: ws_normalize_def split_join split_nl_not_Nil)
qed

lemma relaxed_check:
  "check_output re_search msg printed ranges expected Relaxed True False = None
     \<longleftrightarrow> map rstrip (split_nl (rstrip_nl printed)) = map rstrip (split_nl (rstrip_nl expected))"
  by (simp add: check_output_def relaxed_lines Let_def)

lemma relaxed_lines_blank_tail:
  "map rstrip (split_nl (rstrip_nl (ascii ''Hello\<newline>World\<newline>  \<newline>'')))
     = [ascii ''Hello'', ascii ''World'', []]"
  by (simp add: rstrip_nl_def rstrip_def is_space_def ascii_def NL_def)

lemma relaxed_lines_hello_world:
  "map rstrip (split_nl (rstrip_nl (ascii ''Hello\<newline>World'')))
     = [ascii ''Hello'', ascii ''World'']"
  by (simp add: rstrip_nl_def rstrip_def is_space_def ascii_def NL_def)

lemma relaxed_lines_hello_world_spaces:
  "map rstrip (split_nl (rstrip_nl (ascii ''Hello\<newline>World  \<newline>'')))
     = [ascii ''Hello'', ascii ''World'']"
  by (simp add: rstrip_nl_def rstrip_def is_space_def ascii_def NL_def)

lemma relaxed_lines_x_spaces:
  "map rstrip (split_nl (rstrip_nl (ascii ''X\<newline>  \<newline>''))) = [ascii ''X'', []]"
  by (simp add: rstrip_nl_def rstrip_def is_space_def ascii_def NL_def)

lemma relaxed_lines_x_blank:
  "map rstrip (split_nl (rstrip_nl (ascii ''X\<newline>\<newline>''))) = [ascii ''X'']"
  by (simp add: rstrip_nl_def rstrip_def is_space_def ascii_def NL_def)

text \<open>
  Claim C6 (relaxed whitespace, the default mode), evaluated on the code. The claim: in
  relaxed mode the trailing whitespace of each line and the trailing blank lines of the
  whole text are stripped from both texts before they are compared. The code removes the
  trailing newlines of the text first (\<open>rstrip('\n')\<close>) and strips the lines afterwards,
  so a last line of spaces stays in the list of lines as an empty line. The actual output
  \<open>Hello\nWorld\n  \n\<close> is compared as the three lines \<open>Hello\<close>, \<open>World\<close> and the empty
  line, the expected output \<open>Hello\nWorld\<close> as two lines, and \<open>__check_output\<close> raises its
  failure. Likewise \<open>X\n  \n\<close> and \<open>X\n\n\<close>, which differ in nothing but the trailing
  whitespace of a line, do not match. The scenario of the claim, \<open>Hello\nWorld  \n\<close>
  against \<open>Hello\nWorld\<close>, does match.
\<close>

theorem relaxed_blank_line_on_code:
  "check_output re_search msg (ascii ''Hello\<newline>World\<newline>  \<newline>'') ranges
       (ascii ''Hello\<newline>World'') Relaxed True False \<noteq> None
   \<and> split_nl (ws_normalize Relaxed (ascii ''Hello\<newline>World\<newline>  \<newline>''))
       = [ascii ''Hello'', ascii ''World'', []]
   \<and> split_nl (ws_normalize Relaxed (ascii ''Hello\<newline>World''))
       = [ascii ''Hello'', ascii ''World'']
   \<and> check_output re_search msg (ascii ''X\<newline>  \<newline>'') ranges
       (ascii ''X\<newline>\<newline>'') Relaxed True False \<noteq> None
   \<and> check_output re_search msg (ascii ''Hello\<newline>World  \<newline>'') ranges
       (ascii ''Hello\<newline>World'') Relaxed True False = None"
  unfolding relaxed_check relaxed_lines relaxed_lines_blank_tail relaxed_lines_hello_world
    relaxed_lines_hello_world_spaces relaxed_lines_x_spaces relaxed_lines_x_blank
  by (simp add: ascii_def)

text \<open>
  Claim C8 (unordered comparison). With \<open>_ordered=False\<close> and no pattern, both
  normalised texts are split into lines, each list of lines is sorted on its own, and
  \<open>__check_output\<close> returns without a failure exactly when the sorted lists are equal.
  The actual output \<open>3\n1\n2\n\<close> matches the expected output \<open>1\n2\n3\n\<close> in relaxed
  mode.
\<close>

theorem unordered_comparison:
  "(check_output re_search msg printed ranges expected ws False False = None
      \<longleftrightarrow> sort (split_nl (ws_normalize ws printed)) = sort (split_nl (ws_normalize ws expected)))
   \<and> check_output re_search msg (ascii ''3\<newline>1\<newline>2\<newline>'') ranges
         (ascii ''1\<newline>2\<newline>3\<newline>'') Relaxed False False = None"
proof -
  have g: "\<And>ws printed expected. check_output re_search msg printed ranges expected ws False False = None
      \<longleftrightarrow> sort (split_nl (ws_normalize ws printed)) = sort (split_nl (ws_normalize ws expected))"
    by (simp add: check_output_def Let_def)
  have "sort (split_nl (ws_normalize Relaxed (ascii ''3\<newline>1\<newline>2\<newline>'')))
      = sort (split_nl (ws_normalize Relaxed (ascii ''1\<newline>2\<newline>3\<newline>'')))"
    by (simp add: ws_normalize_def rstrip_nl_def rstrip_def is_space_def ascii_def NL_def)
  with g show ?thesis by blast
qed

theorem unordered_comparison_witness:
  "check_output (\<lambda>e p. False) [] (ascii ''3\<newline>1\<newline>2\<newline>'') [] (ascii ''1\<newline>2\<newline>3\<newline>'')
     Relaxed False False = None
   \<and> check_output (\<lambda>e p. False) [] (ascii ''3\<newline>1\<newline>1'') [] (ascii ''1\<newline>3\<newline>3'')
     Relaxed False False \<noteq> None"
  using unordered_comparison[where re_search = "\<lambda>e p. False" and msg = "[]"
      and printed = "ascii ''3\<newline>1\<newline>1''" and ranges = "[]"
      and expected = "ascii ''1\<newline>3\<newline>3''" and ws = Relaxed]
  by (simp add: ws_normalize_def rstrip_nl_def rstrip_def is_space_def ascii_def NL_def)

section \<open>Properties of the assertion wrappers\<close>

lemma extract_call_left:
  "take 6 fullname = ''assert'' \<Longrightarrow>
   extract_from_assert_call to_source (Some (assert_stmt fullname [Call g xs, Constant])) 2 =
     Inr (Some (to_source (Call g xs)), 0)"
  by (simp add: extract_from_assert_call_def assert_stmt_def)

lemma extract_call_right:
  "take 6 fullname = ''assert'' \<Longrightarrow>
   extract_from_assert_call to_source (Some (assert_stmt fullname [Constant, Call g xs])) 2 =
     Inr (Some (to_source (Call g xs)), 1)"
  by (simp add: extract_from_assert_call_def assert_stmt_def)

lemma assign_values_left:
  "map (\<lambda>name. map_sum id fst (assign_values name (Some 0) [a, b]))
     [''Greater'', ''GreaterEqual'', ''Less'', ''LessEqual'']
   = [Inr ''LessEqual'', Inr ''Less'', Inr ''GreaterEqual'', Inr ''Greater'']"
  by (simp add: assign_values_def and_then_def arg_at_def SWAP_def)

lemma assign_values_right:
  "map (\<lambda>name. map_sum id fst (assign_values name (Some 1) [a, b]))
     [''Greater'', ''GreaterEqual'', ''Less'', ''LessEqual'']
   = [Inr ''Greater'', Inr ''GreaterEqual'', Inr ''Less'', Inr ''LessEqual'']"
  by (simp add: assign_values_def and_then_def arg_at_def)

text \<open>
  Claim C9 (direction of the ordering assertions), evaluated on the code. The test calls
  \<open>self.assertGreater\<close> with a function call and a literal, the values of the arguments
  are \<open>a\<close> and \<open>b\<close>, and no message is given. With the function call on the left
  (\<open>index = 0\<close>) the name of each of the four ordering assertions is replaced before the
  template is chosen, and the message of \<open>assertGreater\<close> reads "less than or equal to"
  the right argument. With the literal on the left (\<open>index = 1\<close>) the name is kept, and the
  message reads "greater than" the left argument. The claim states the opposite in both
  cases.
\<close>

theorem ordering_direction_on_code:
  "add_helpful_msg rt to_source code
       (Some (assert_stmt ''assertGreater'' [Call g xs, Constant])) ''Greater'' [a, b] kwargs =
     Inr (Some (code @ [NL] @ ascii ''The function call was: '' @ to_source (Call g xs) @ [NL]
            @ ascii ''Expected return value to be less than or equal to: '' @ repr_block rt (Val b)
            @ [NL] @ ascii ''Actual return value: '' @ repr_block rt (Val a)))
   \<and> add_helpful_msg rt to_source code
       (Some (assert_stmt ''assertGreater'' [Constant, Call g xs])) ''Greater'' [a, b] kwargs =
     Inr (Some (code @ [NL] @ ascii ''The function call was: '' @ to_source (Call g xs) @ [NL]
            @ ascii ''Expected return value to be greater than: '' @ repr_block rt (Val a)
            @ [NL] @ ascii ''Actual return value: '' @ repr_block rt (Val b)))
   \<and> map (\<lambda>name. map_sum id fst (assign_values name (Some 0) [a, b]))
         [''Greater'', ''GreaterEqual'', ''Less'', ''LessEqual'']
       = [Inr ''LessEqual'', Inr ''Less'', Inr ''GreaterEqual'', Inr ''Greater'']
   \<and> map (\<lambda>name. map_sum id fst (assign_values name (Some 1) [a, b]))
         [''Greater'', ''GreaterEqual'', ''Less'', ''LessEqual'']
       = [Inr ''Greater'', Inr ''GreaterEqual'', Inr ''Less'', Inr ''LessEqual'']"
  unfolding assign_values_left assign_values_right
  by (simp add: add_helpful_msg_def NO_FUNC_CALL_def num_args_def NUM_ARGS_def and_then_def
      assign_values_def extract_call_left extract_call_right arg_at_def SWAP_def
      almost_equal_case_def is_case_def is_instance_case_def repr_slot_def TEMPLATES_def
      TEMPLATE_LIST_def)

lemma in_is_wrapped: "''In'' \<in> set (wrapped_names unittest_has)"
  by (simp add: wrapped_names_def unittest_has_def TEMPLATE_LIST_def)

lemma add_helpful_msg_in:
  "add_helpful_msg rt to_source code node ''In'' [a, b] kwargs = Inl (UnboundLocalError ''index'')"
  by (simp add: add_helpful_msg_def NO_FUNC_CALL_def num_args_def NUM_ARGS_def and_then_def
      assign_values_def)

lemma add_helpful_msg_true_call:
  "add_helpful_msg rt to_source code (Some (assert_stmt ''assertTrue'' [Call g xs])) ''True'' [a] kwargs
     = Inl IndexError"
  by (simp add: add_helpful_msg_def NO_FUNC_CALL_def num_args_def NUM_ARGS_def and_then_def
      extract_from_assert_call_def assert_stmt_def)

lemma wrapper_returns_iff:
  "assert_wrapper rt to_source code node name underlying args kwargs = Returns
     \<longleftrightarrow> underlying = Passes"
  by (cases underlying) (auto simp: assert_wrapper_def Let_def split: sum.splits)

lemma wrapper_custom_msg:
  "\<not> kw_is_none rt kwargs ''msg'' \<Longrightarrow>
   assert_wrapper rt to_source code node name (AssertionError ex) args kwargs = Reraises ex None"
  by (simp add: assert_wrapper_def)

text \<open>
  Claim C10 (the wrappers preserve the behaviour of the assertions), evaluated on the
  code. The wrapper returns exactly when the wrapped assertion returns. When
  \<open>assertIn\<close>, which is wrapped, fails on two arguments without a message, the wrapper
  does not raise the \<open>AssertionError\<close> again: \<open>__add_helpful_msg\<close> reads the variable
  \<open>index\<close>, which is assigned only for the names outside \<open>__NO_FUNC_CALL\<close>, and its
  \<open>UnboundLocalError\<close> leaves the wrapper. Likewise \<open>self.assertTrue(g(...))\<close>, found
  as the statement of the line, leaves the wrapper with the \<open>IndexError\<close> of \<open>args[1]\<close>.
\<close>

theorem wrapper_raises_instead:
  "''In'' \<in> set (wrapped_names unittest_has)
   \<and> assert_wrapper rt to_source code node ''In'' (AssertionError ex) [a, b] Map.empty =
       RaisesInstead (UnboundLocalError ''index'')
   \<and> assert_wrapper rt to_source code (Some (assert_stmt ''assertTrue'' [Call g xs])) ''True''
         (AssertionError ex) [a] Map.empty = RaisesInstead IndexError
   \<and> (assert_wrapper rt to_source code node name underlying args kwargs = Returns
         \<longleftrightarrow> underlying = Passes)"
  by (simp add: in_is_wrapped assert_wrapper_def add_helpful_msg_in add_helpful_msg_true_call
      kw_is_none_def num_args_def NUM_ARGS_def wrapper_returns_iff[unfolded assert_wrapper_def])

end
